theory Spec2Isabelle
  imports Complex_Main "HOL-Library.Log_Nat"
begin

chapter \<open>Playwright Auditor: scoring engine, analyzer runner and orchestrator\<close>

text \<open>
  A shallow embedding of \<^verbatim>\<open>dist/src/utils/scoring.js\<close>, \<^verbatim>\<open>src/utils/helpers.ts\<close>
  (\<^verbatim>\<open>applyScore\<close>, \<^verbatim>\<open>ok\<close>) and \<^verbatim>\<open>dist/src/index.js\<close> (\<^verbatim>\<open>toSev\<close>,
  \<^verbatim>\<open>normalizeCategory\<close>, \<^verbatim>\<open>analyzerCandidates\<close>, \<^verbatim>\<open>importAnalyzerModule\<close>,
  \<^verbatim>\<open>runAnalyzer\<close>, \<^verbatim>\<open>runAudit\<close>). The first part holds every definition, the second
  part the lemmas and the theorems about them.
\<close>

section \<open>JavaScript numbers\<close>

text \<open>
  The scores are JavaScript numbers, that is IEEE 754 binary64 values. Every arithmetic
  operation gives the exact result rounded to the nearest binary64 value, ties to even;
  \<open>fl64\<close> is that rounding on the rationals (53 significant bits, gradual underflow below
  \<open>2 powi - 1022\<close>; overflow to Infinity, from \<open>2 ^ 1024\<close> on, is outside the model). Sums
  and products of integers are exact while they stay below \<open>2 ^ 53\<close> in absolute value
  (lemma \<open>fl64_exact\<close>). The sums of the weights of an array of findings always do, an array
  having fewer than \<open>2 ^ 32\<close> elements and a weight being at most 12, and are modelled by
  \<^typ>\<open>int\<close>; the sums over the categories, whose scores and weights are any numbers, are
  rounded at every step.
\<close>

definition flog2 :: "rat \<Rightarrow> int" where
  \<comment> \<open>\<open>\<lfloor>log\<^sub>2 x\<rfloor>\<close> for \<open>x > 0\<close>\<close>
  "flog2 x = (let (p, q) = quotient_of x; k = bitlen p - bitlen q
              in if power_int 2 k \<le> x then k else k - 1)"

definition round_ties_even :: "rat \<Rightarrow> int" where
  "round_ties_even r =
     (let f = \<lfloor>r\<rfloor>; d = r - of_int f
      in if d < 1 / 2 then f else if 1 / 2 < d then f + 1 else if even f then f else f + 1)"

definition fl64 :: "rat \<Rightarrow> rat" where
  "fl64 x =
     (if x = 0 then 0
      else let e = max (flog2 \<bar>x\<bar> - 52) (- 1074)
           in of_int (round_ties_even (x / power_int 2 e)) * power_int 2 e)"

definition js_div :: "int \<Rightarrow> int \<Rightarrow> rat" where
  \<comment> \<open>\<^verbatim>\<open>a / b\<close> on two integers, \<open>b \<noteq> 0\<close>\<close>
  "js_div a b = fl64 (of_int a / of_int b)"

definition js_quot :: "rat \<Rightarrow> rat \<Rightarrow> rat" where
  \<comment> \<open>\<^verbatim>\<open>x / y\<close> on two numbers, \<open>y \<noteq> 0\<close>\<close>
  "js_quot x y = fl64 (x / y)"

definition js_add :: "rat \<Rightarrow> rat \<Rightarrow> rat" where
  \<comment> \<open>\<^verbatim>\<open>x + y\<close>\<close>
  "js_add x y = fl64 (x + y)"

definition js_mul :: "rat \<Rightarrow> rat \<Rightarrow> rat" where
  \<comment> \<open>\<^verbatim>\<open>x * y\<close>\<close>
  "js_mul x y = fl64 (x * y)"

definition Math_round :: "rat \<Rightarrow> int" where
  \<comment> \<open>\<^verbatim>\<open>Math.round\<close>: the nearest integer, a tie going up\<close>
  "Math_round x = \<lfloor>x + 1 / 2\<rfloor>"

section \<open>The scoring engine (\<^verbatim>\<open>utils/scoring.js\<close>)\<close>

text \<open>
  \<^verbatim>\<open>const WEIGHT = { info: 1, low: 2, medium: 4, high: 8, critical: 12 }\<close> is an object
  literal, so \<^verbatim>\<open>WEIGHT[sev]\<close> looks \<^verbatim>\<open>sev\<close> up among its own five properties and then
  along the prototype chain, in \<^verbatim>\<open>Object.prototype\<close>. The lookup gives a number, a
  function or object inherited from the prototype, or \<^verbatim>\<open>undefined\<close>.
\<close>

datatype propval = PropUndefined | PropNumber int | PropObject

definition Object_prototype_keys :: "string list" where
  "Object_prototype_keys =
     [''constructor'', ''__defineGetter__'', ''__defineSetter__'', ''hasOwnProperty'',
      ''__lookupGetter__'', ''__lookupSetter__'', ''isPrototypeOf'', ''propertyIsEnumerable'',
      ''toString'', ''valueOf'', ''__proto__'', ''toLocaleString'']"

definition WEIGHT :: "string \<Rightarrow> propval" where
  "WEIGHT k =
     (if k = ''info'' then PropNumber 1
      else if k = ''low'' then PropNumber 2
      else if k = ''medium'' then PropNumber 4
      else if k = ''high'' then PropNumber 8
      else if k = ''critical'' then PropNumber 12
      else if k \<in> set Object_prototype_keys then PropObject
      else PropUndefined)"

text \<open>
  \<^verbatim>\<open>maxPoints\<close> and \<^verbatim>\<open>earnedPoints\<close> start as the number 0. \<^verbatim>\<open>+=\<close> with a number adds;
  with a function or an object it concatenates strings, and what was a number is a string from
  then on (\<^verbatim>\<open>0 + Object\<close> is \<^verbatim>\<open>"0function Object() { [native code] }"\<close>). Such a string
  never reads as a number again: compared with \<^verbatim>\<open>> 0\<close> it is NaN, and the comparison false.
\<close>

datatype points = Num int | Str

fun plus_assign :: "points \<Rightarrow> propval \<Rightarrow> points" where
  "plus_assign (Num a) (PropNumber b) = Num (a + b)"
| "plus_assign _ _ = Str"

text \<open>
  A finding as \<^verbatim>\<open>computeCategoryScore\<close> reads it: \<^verbatim>\<open>f?.severity\<close> and \<^verbatim>\<open>f?.status\<close>,
  each possibly missing (\<open>None\<close>: \<^verbatim>\<open>undefined\<close> or \<^verbatim>\<open>null\<close>, also when \<^verbatim>\<open>f\<close> itself is).
  A severity that is not a string is used through its string conversion, as every
  property key is; a status that is not a string behaves as any string other than
  \<^verbatim>\<open>'pass'\<close>.
\<close>

record FindingLike =
  fl_severity :: "string option"
  fl_status :: "string option"

record CategoryScoreBreakdown =
  score :: int
  maxPoints :: points
  earnedPoints :: points

definition nullish_or :: "propval \<Rightarrow> propval \<Rightarrow> propval" where
  \<comment> \<open>\<^verbatim>\<open>a ?? b\<close>\<close>
  "nullish_or a b = (case a of PropUndefined \<Rightarrow> b | _ \<Rightarrow> a)"

fun category_loop :: "FindingLike list \<Rightarrow> points \<Rightarrow> points \<Rightarrow> points \<times> points" where
  "category_loop [] maxP earnedP = (maxP, earnedP)"
| "category_loop (f # fs) maxP earnedP =
     (let sev = (case fl_severity f of None \<Rightarrow> ''low'' | Some s \<Rightarrow> s);
          w = nullish_or (WEIGHT sev) (WEIGHT ''low'');
          maxP' = plus_assign maxP w;
          passed = (fl_status f = Some ''pass'');
          earnedP' = (if passed then plus_assign earnedP w else earnedP)
      in category_loop fs maxP' earnedP')"

definition percentage :: "int \<Rightarrow> int \<Rightarrow> int" where
  \<comment> \<open>\<^verbatim>\<open>Math.round((earnedPoints / maxPoints) * 100)\<close>\<close>
  "percentage earned maxp = Math_round (js_mul (js_div earned maxp) 100)"

definition category_score :: "points \<Rightarrow> points \<Rightarrow> int" where
  \<comment> \<open>\<^verbatim>\<open>maxPoints > 0 ? Math.round((earnedPoints / maxPoints) * 100) : 100\<close>. A string
      \<^verbatim>\<open>earnedPoints\<close> beside a numeric \<^verbatim>\<open>maxPoints\<close> would give NaN; the loop never
      produces that pair (lemma \<open>category_loop_earned_Str\<close>).\<close>
  "category_score maxP earnedP =
     (case maxP of
        Str \<Rightarrow> 100
      | Num m \<Rightarrow> if 0 < m then (case earnedP of Num e \<Rightarrow> percentage e m | Str \<Rightarrow> 0) else 100)"

definition computeCategoryScore :: "FindingLike list \<Rightarrow> CategoryScoreBreakdown" where
  "computeCategoryScore findings =
     (if findings = [] then \<lparr>score = 100, maxPoints = Num 0, earnedPoints = Num 0\<rparr>
      else let (maxP, earnedP) = category_loop findings (Num 0) (Num 0)
           in \<lparr>score = category_score maxP earnedP, maxPoints = maxP, earnedPoints = earnedP\<rparr>)"

text \<open>
  \<^verbatim>\<open>computeOverallScore(categories: Array<{ score: number; _maxPoints?: number }>)\<close>.
  The numbers of the model are the integers (a score is an integer from 0 to 100, a
  \<^verbatim>\<open>_maxPoints\<close> a sum of weights); \<^verbatim>\<open>weighted\<close>, \<^verbatim>\<open>totalWeight\<close> and the sum of the
  fallback are binary64 values, every \<^verbatim>\<open>+\<close> and \<^verbatim>\<open>*\<close> rounding its result.
  \<^verbatim>\<open>runAudit\<close> passes \<^verbatim>\<open>c._maxPoints || 0\<close>, which is whatever \<^verbatim>\<open>computeCategoryScore\<close>
  returned, so the field holds a \<^typ>\<open>points\<close>; \<^verbatim>\<open>Math.max(0, s)\<close> of a string that is
  not a number is NaN, and \<^verbatim>\<open>NaN > 0\<close> is false.
\<close>

record ScoredCategory =
  sc_score :: int
  sc_maxPoints :: "points option"

definition Math_max0 :: "points option \<Rightarrow> points" where
  \<comment> \<open>\<^verbatim>\<open>Math.max(0, c._maxPoints ?? 0)\<close>; \<open>Str\<close> stands for NaN here\<close>
  "Math_max0 p = (case p of None \<Rightarrow> Num 0 | Some (Num n) \<Rightarrow> Num (max 0 n) | Some Str \<Rightarrow> Str)"

fun overall_loop :: "ScoredCategory list \<Rightarrow> rat \<Rightarrow> rat \<Rightarrow> rat \<times> rat" where
  "overall_loop [] weighted totalWeight = (weighted, totalWeight)"
| "overall_loop (c # cs) weighted totalWeight =
     (case Math_max0 (sc_maxPoints c) of
        Num w \<Rightarrow>
          if 0 < w
          then overall_loop cs
                 (js_add weighted (js_mul (of_int (sc_score c)) (of_int w)))
                 (js_add totalWeight (of_int w))
          else overall_loop cs weighted totalWeight
      | Str \<Rightarrow> overall_loop cs weighted totalWeight)"

definition computeOverallScore :: "ScoredCategory list \<Rightarrow> int" where
  "computeOverallScore categories =
     (if categories = [] then 100
      else let (weighted, totalWeight) = overall_loop categories 0 0
           in if 0 < totalWeight then Math_round (js_quot weighted totalWeight)
              else let mean = js_quot (fold (\<lambda>c s. js_add s (of_int (sc_score c))) categories 0)
                                      (of_int (int (length categories)))
                   in Math_round (if mean \<noteq> 0 then mean else 0))"

section \<open>The deduction score (\<^verbatim>\<open>utils/helpers.ts\<close>)\<close>

datatype Sev = Info | Low | Medium | High | Critical

fun DEDUCT :: "Sev \<Rightarrow> int" where
  "DEDUCT Info = 0"
| "DEDUCT Low = 2"
| "DEDUCT Medium = 6"
| "DEDUCT High = 12"
| "DEDUCT Critical = 20"

text \<open>The parameter type of \<^verbatim>\<open>applyScore\<close>: \<^verbatim>\<open>{ status: string; severity?: Sev }\<close>.\<close>

record StatusSeverity =
  ss_status :: string
  ss_severity :: "Sev option"

definition or_zero :: "int \<Rightarrow> int" where
  \<comment> \<open>\<^verbatim>\<open>x || 0\<close> on a number\<close>
  "or_zero x = (if x \<noteq> 0 then x else 0)"

fun applyScore_loop :: "StatusSeverity list \<Rightarrow> int \<Rightarrow> int" where
  "applyScore_loop [] s = s"
| "applyScore_loop (f # fs) s =
     (if ss_status f = ''fail''
      then applyScore_loop fs
             (s - or_zero (DEDUCT (case ss_severity f of None \<Rightarrow> Info | Some v \<Rightarrow> v)))
      else applyScore_loop fs s)"

definition applyScore :: "StatusSeverity list \<Rightarrow> int" where
  "applyScore findings = max 0 (min 100 (applyScore_loop findings 100))"

section \<open>The regular expression helper \<^verbatim>\<open>ok\<close> (\<^verbatim>\<open>utils/helpers.ts\<close>)\<close>

text \<open>
  A \<^verbatim>\<open>RegExp\<close> object carries its pattern, its flags and the mutable \<^verbatim>\<open>lastIndex\<close>.
  The matcher itself belongs to the JavaScript runtime and is a parameter: \<open>compiles\<close>
  tells whether \<^verbatim>\<open>new RegExp(source, flags)\<close> succeeds (it throws a SyntaxError
  otherwise), and \<open>match_from source flags text i\<close> is the end index of the match found
  when the search starts at index \<open>i\<close>, if there is one.
\<close>

record RegExp =
  source :: string
  flags :: string
  lastIndex :: nat

record engine =
  compiles :: "string \<Rightarrow> string \<Rightarrow> bool"
  match_from :: "string \<Rightarrow> string \<Rightarrow> string \<Rightarrow> nat \<Rightarrow> nat option"

definition stateful :: "RegExp \<Rightarrow> bool" where
  \<comment> \<open>the global or the sticky flag is set\<close>
  "stateful re = (CHR ''g'' \<in> set (flags re) \<or> CHR ''y'' \<in> set (flags re))"

definition RegExp_test :: "engine \<Rightarrow> RegExp \<Rightarrow> string \<Rightarrow> bool \<times> RegExp" where
  \<comment> \<open>\<^verbatim>\<open>re.test(text)\<close>: the answer and the object afterwards. With the global or sticky
      flag the search starts at \<^verbatim>\<open>lastIndex\<close>, which a match moves to its end and a
      failure resets to 0.\<close>
  "RegExp_test E re text =
     (let start = (if stateful re then lastIndex re else 0)
      in if length text < start
         then (False, if stateful re then re\<lparr>lastIndex := 0\<rparr> else re)
         else (case match_from E (source re) (flags re) text start of
                 None \<Rightarrow> (False, if stateful re then re\<lparr>lastIndex := 0\<rparr> else re)
               | Some e \<Rightarrow> (True, if stateful re then re\<lparr>lastIndex := e\<rparr> else re)))"

definition ok :: "engine \<Rightarrow> RegExp \<Rightarrow> string option \<Rightarrow> bool \<times> RegExp" where
  \<comment> \<open>\<^verbatim>\<open>ok(re, text)\<close>: the answer and the argument \<^verbatim>\<open>re\<close> afterwards. \<open>None\<close> is a
      \<^verbatim>\<open>null\<close> or \<^verbatim>\<open>undefined\<close> text. \<^verbatim>\<open>replace('g', '')\<close> removes the first \<^verbatim>\<open>g\<close>.\<close>
  "ok E re text =
     (case text of
        None \<Rightarrow> (False, re)
      | Some t \<Rightarrow>
          if t = [] then (False, re)
          else let flags' = remove1 (CHR ''g'') (flags re)
               in if \<not> compiles E (source re) flags' then (False, re)
                  else let safeRe = \<lparr>source = source re, flags = flags', lastIndex = 0\<rparr>
                       in (fst (RegExp_test E safeRe t), re))"

text \<open>A small matcher for concrete runs: the pattern is a literal text, every flag set compiles.\<close>

fun find_literal :: "string \<Rightarrow> string \<Rightarrow> nat \<Rightarrow> nat option" where
  "find_literal pat [] i = (if pat = [] then Some i else None)"
| "find_literal pat (c # cs) i =
     (if take (length pat) (c # cs) = pat then Some (i + length pat)
      else find_literal pat cs (Suc i))"

definition literal_engine :: engine where
  "literal_engine =
     \<lparr>compiles = (\<lambda>src fl. True),
      match_from = (\<lambda>src fl text i.
         if CHR ''y'' \<in> set fl
         then (if take (length src) (drop i text) = src then Some (i + length src) else None)
         else find_literal src (drop i text) i)\<rparr>"

section \<open>JavaScript values\<close>

text \<open>
  What an analyzer may return is any JavaScript value; the model has the values of JSON
  (numbers being integers) and Error objects (name and message). Values thrown are Error
  objects, strings, \<^verbatim>\<open>null\<close> or \<^verbatim>\<open>undefined\<close>.
\<close>

datatype jsval =
    JUndefined | JNull | JBool bool | JNum int | JStr string
  | JArr "jsval list" | JObj "(string \<times> jsval) list" | JError string string

datatype thrown = ThrownError string string | ThrownString string | ThrownNull | ThrownUndefined

fun truthy :: "jsval \<Rightarrow> bool" where
  "truthy JUndefined = False"
| "truthy JNull = False"
| "truthy (JBool b) = b"
| "truthy (JNum n) = (n \<noteq> 0)"
| "truthy (JStr s) = (s \<noteq> [])"
| "truthy _ = True"

definition nullish :: "jsval \<Rightarrow> bool" where
  "nullish v = (v = JUndefined \<or> v = JNull)"

definition coalesce :: "jsval \<Rightarrow> jsval \<Rightarrow> jsval" where
  \<comment> \<open>\<^verbatim>\<open>a ?? b\<close>\<close>
  "coalesce a b = (if nullish a then b else a)"

fun join :: "string \<Rightarrow> string list \<Rightarrow> string" where
  "join sep [] = []"
| "join sep [x] = x"
| "join sep (x # y # ys) = x @ sep @ join sep (y # ys)"

fun digits :: "nat \<Rightarrow> string" where
  "digits n = (if n < 10 then [''0123456789'' ! n] else digits (n div 10) @ [''0123456789'' ! (n mod 10)])"

definition number_to_string :: "int \<Rightarrow> string" where
  \<comment> \<open>the decimal digits, as \<^verbatim>\<open>String(n)\<close> prints an integer below \<open>10 ^ 21\<close> in absolute
      value; from there on JavaScript prints an exponent, which is outside the model\<close>
  "number_to_string n = (if n < 0 then ''-'' @ digits (nat (- n)) else digits (nat n))"

fun js_String :: "jsval \<Rightarrow> string" where
  \<comment> \<open>\<^verbatim>\<open>String(v)\<close>\<close>
  "js_String JUndefined = ''undefined''"
| "js_String JNull = ''null''"
| "js_String (JBool b) = (if b then ''true'' else ''false'')"
| "js_String (JNum n) = number_to_string n"
| "js_String (JStr s) = s"
| "js_String (JArr xs) = join '','' (map (\<lambda>x. if nullish x then [] else js_String x) xs)"
| "js_String (JObj kvs) = ''[object Object]''"
| "js_String (JError name msg) =
     (if name = [] then msg else if msg = [] then name else name @ '': '' @ msg)"

fun get :: "jsval \<Rightarrow> string \<Rightarrow> jsval" where
  \<comment> \<open>\<^verbatim>\<open>v.k\<close> for a value that is neither \<^verbatim>\<open>null\<close> nor \<^verbatim>\<open>undefined\<close> and a property
      name that no prototype defines (all the names read below are such)\<close>
  "get (JObj kvs) k = (case map_of kvs k of None \<Rightarrow> JUndefined | Some v \<Rightarrow> v)"
| "get (JError name msg) k =
     (if k = ''message'' then JStr msg else if k = ''name'' then JStr name else JUndefined)"
| "get _ k = JUndefined"

definition exception_text :: "thrown \<Rightarrow> string" where
  \<comment> \<open>\<^verbatim>\<open>e?.message || String(e)\<close>\<close>
  "exception_text e =
     (case e of
        ThrownError name msg \<Rightarrow> if msg \<noteq> [] then msg else name
      | ThrownString s \<Rightarrow> s
      | ThrownNull \<Rightarrow> ''null''
      | ThrownUndefined \<Rightarrow> ''undefined'')"

definition toLowerCase :: "string \<Rightarrow> string" where
  \<comment> \<open>on the letters A to Z; no other character becomes one of the letters of the five
      severity names\<close>
  "toLowerCase s =
     map (\<lambda>c. case map_of (zip ''ABCDEFGHIJKLMNOPQRSTUVWXYZ'' ''abcdefghijklmnopqrstuvwxyz'') c of
                None \<Rightarrow> c | Some d \<Rightarrow> d) s"

section \<open>Normalisation (\<^verbatim>\<open>index.js\<close>)\<close>

definition toSev :: "jsval \<Rightarrow> string" where
  "toSev x =
     (let s = toLowerCase (js_String (if truthy x then x else JStr []))
      in if s = ''info'' then ''info''
         else if s = ''low'' then ''low''
         else if s = ''medium'' then ''medium''
         else if s = ''high'' then ''high''
         else if s = ''critical'' then ''critical''
         else ''low'')"

record Finding =
  f_id :: string
  f_title :: string
  f_message :: string
  f_suggestion :: "string option"
  f_severity :: string
  f_status :: string
  f_file :: "string option"
  f_artifacts :: "string list option"

record Category =
  c_id :: jsval
  c_title :: jsval
  c_findings :: "Finding list"
  c_score :: "int option"
  c_maxPoints :: "points option"

record Entry =
  e_id :: string
  e_title :: string
  stem :: string
  fnName :: string

definition TypeError_reading :: "jsval \<Rightarrow> string \<Rightarrow> thrown" where
  \<comment> \<open>reading a property of \<^verbatim>\<open>null\<close> or \<^verbatim>\<open>undefined\<close> (the message is V8's)\<close>
  "TypeError_reading v k =
     ThrownError ''TypeError''
       (''Cannot read properties of '' @ js_String v @ '' (reading '' @ [CHR 0x27] @ k
        @ [CHR 0x27] @ '')'')"

definition normalizeFinding :: "jsval \<Rightarrow> thrown + Finding" where
  \<comment> \<open>the callback of \<^verbatim>\<open>findings.map\<close> in \<^verbatim>\<open>normalizeCategory\<close>\<close>
  "normalizeFinding f =
     (if nullish f then Inl (TypeError_reading f ''id'')
      else Inr
        \<lparr>f_id = js_String (coalesce (coalesce (get f ''id'') (get f ''title'')) (JStr ''check'')),
         f_title = js_String (coalesce (get f ''title'') (JStr ''Check'')),
         f_message = (if truthy (get f ''message'') then js_String (get f ''message'') else []),
         f_suggestion =
           (if truthy (get f ''suggestion'') then Some (js_String (get f ''suggestion''))
            else None),
         f_severity = toSev (get f ''severity''),
         f_status =
           (if get f ''status'' = JStr ''pass'' then ''pass''
            else if get f ''status'' = JStr ''fail'' then ''fail''
            else ''fail''),
         f_file = (if truthy (get f ''file'') then Some (js_String (get f ''file'')) else None),
         f_artifacts =
           (case get f ''artifacts'' of JArr xs \<Rightarrow> Some (map js_String xs) | _ \<Rightarrow> None)\<rparr>)"

fun map_throwing :: "('a \<Rightarrow> thrown + 'b) \<Rightarrow> 'a list \<Rightarrow> thrown + 'b list" where
  \<comment> \<open>\<^verbatim>\<open>xs.map(g)\<close> with a callback that may throw\<close>
  "map_throwing g [] = Inr []"
| "map_throwing g (x # xs) =
     (case g x of
        Inl e \<Rightarrow> Inl e
      | Inr y \<Rightarrow> (case map_throwing g xs of Inl e \<Rightarrow> Inl e | Inr ys \<Rightarrow> Inr (y # ys)))"

definition normalizeCategory :: "Entry \<Rightarrow> jsval \<Rightarrow> thrown + Category option" where
  "normalizeCategory entry out =
     (if \<not> truthy out then Inr None
      else let findings = (case get out ''findings'' of JArr fs \<Rightarrow> fs | _ \<Rightarrow> [])
           in case map_throwing normalizeFinding findings of
                Inl e \<Rightarrow> Inl e
              | Inr fs \<Rightarrow>
                  Inr (Some
                    \<lparr>c_id = (if truthy (get out ''id'') then get out ''id'' else JStr (e_id entry)),
                     c_title =
                       (if truthy (get out ''title'') then get out ''title''
                        else JStr (e_title entry)),
                     c_findings = fs,
                     c_score = None,
                     c_maxPoints = None\<rparr>))"

section \<open>The analyzer registry and the world around a run\<close>

definition ANALYZERS :: "Entry list" where
  "ANALYZERS =
     [\<lparr>e_id = ''structure'', e_title = ''Project Structure'', stem = ''projectStructure'',
        fnName = ''analyzeProjectStructure''\<rparr>,
      \<lparr>e_id = ''deps'', e_title = ''Dependencies'', stem = ''dependencies'',
        fnName = ''analyzeDependencies''\<rparr>,
      \<lparr>e_id = ''config'', e_title = ''Config'', stem = ''config'', fnName = ''analyzeConfig''\<rparr>,
      \<lparr>e_id = ''tests'', e_title = ''Test Quality'', stem = ''testsQuality'',
        fnName = ''analyzeTestsQuality''\<rparr>,
      \<lparr>e_id = ''locators'', e_title = ''Locator Strategy'', stem = ''locators'',
        fnName = ''analyzeLocators''\<rparr>,
      \<lparr>e_id = ''flakiness'', e_title = ''Flakiness Risks'', stem = ''flakiness'',
        fnName = ''analyzeFlakiness''\<rparr>,
      \<lparr>e_id = ''reporting'', e_title = ''Reporting & Observability'', stem = ''reportingObs'',
        fnName = ''analyzeReportingObs''\<rparr>,
      \<lparr>e_id = ''ci'', e_title = ''CI/CD Hygiene'', stem = ''cicdIntegration'',
        fnName = ''analyzeCICDIntegration''\<rparr>,
      \<lparr>e_id = ''network'', e_title = ''Network/Route Mocks'', stem = ''networkMocking'',
        fnName = ''analyzeNetwork''\<rparr>,
      \<lparr>e_id = ''core'', e_title = ''Core Functionalities'', stem = ''core'',
        fnName = ''analyzeCore''\<rparr>,
      \<lparr>e_id = ''advanced'', e_title = ''Advanced Capabilities'', stem = ''advanced'',
        fnName = ''analyzeAdvanced''\<rparr>,
      \<lparr>e_id = ''data'', e_title = ''Data Management'', stem = ''dataMgmt'',
        fnName = ''analyzeDataMgmt''\<rparr>,
      \<lparr>e_id = ''best'', e_title = ''Best Practices Enforcement'', stem = ''bestPractices'',
        fnName = ''analyzeBestPractices''\<rparr>,
      \<lparr>e_id = ''notify'', e_title = ''Notification'', stem = ''notifications'',
        fnName = ''analyzeNotification''\<rparr>]"

text \<open>
  The world a run sees. \<open>stat\<close> is \<^verbatim>\<open>fs.stat\<close> (\<open>None\<close> when it rejects); \<open>evaluate\<close> is
  what importing the module file at a path gives, its exports in the order of
  \<^verbatim>\<open>Object.values\<close> or the error thrown while loading it; an exported function is an
  analyzer, which throws, returns a rejected promise, or returns (a promise of) a value.
  \<open>here\<close> is the directory of \<^verbatim>\<open>index.js\<close> itself (\<^verbatim>\<open>path.dirname(fileURLToPath(import.meta.url))\<close>),
  an absolute, normalised POSIX path. \<open>resolve\<close> is \<^verbatim>\<open>path.resolve\<close>, \<open>now\<close> the clock,
  \<open>default_outDir\<close> is \<^verbatim>\<open>path.resolve(process.cwd(), 'audit-report')\<close>; the last three
  fields are the outcomes of \<^verbatim>\<open>fs.mkdir\<close>, of \<^verbatim>\<open>writeHtml\<close> and of \<^verbatim>\<open>fs.writeFile\<close>
  (\<open>None\<close>: done; \<open>Some e\<close>: rejected with \<open>e\<close>). An analyzer that never settles its promise is
  outside the model.
\<close>

datatype node = File | Directory | Other

datatype outcome = Throws thrown | Rejects thrown | Returns jsval

datatype export = Function "string \<Rightarrow> outcome" | NotFunction

type_synonym module = "(string \<times> export) list"

record env =
  here :: string
  stat :: "string \<Rightarrow> node option"
  evaluate :: "string \<Rightarrow> thrown + module"
  resolve :: "string \<Rightarrow> string"
  now :: string
  default_outDir :: string
  io_mkdir :: "string \<Rightarrow> thrown option"
  io_writeHtml :: "string \<Rightarrow> thrown option"
  io_writeFile :: "string \<Rightarrow> thrown option"

text \<open>What a run does to the world, in order: modules imported, analyzers invoked, writes.\<close>

datatype event =
    Import string | Invoke string | Mkdir string | WriteHtml string | WriteFile string

subsection \<open>Paths\<close>

definition is_sep :: "char \<Rightarrow> bool" where
  "is_sep c = (c = CHR ''/'' \<or> c = CHR 0x5C)"

fun isDist :: "string \<Rightarrow> bool" where
  \<comment> \<open>\<^verbatim>\<open>/[\\/]dist([\\/]|$)/.test(dir)\<close>\<close>
  "isDist [] = False"
| "isDist (c # cs) =
     ((is_sep c \<and> take 4 cs = ''dist''
        \<and> (case drop 4 cs of [] \<Rightarrow> True | d # _ \<Rightarrow> is_sep d))
      \<or> isDist cs)"

definition path_join :: "string \<Rightarrow> string \<Rightarrow> string" where
  \<comment> \<open>\<^verbatim>\<open>path.join(p, name)\<close> for a normalised \<open>p\<close> and a plain name\<close>
  "path_join p name = (if p = ''/'' then p @ name else p @ ''/'' @ name)"

definition path_parent :: "string \<Rightarrow> string" where
  \<comment> \<open>\<^verbatim>\<open>path.resolve(p, '..')\<close> for an absolute, normalised \<open>p\<close>\<close>
  "path_parent p =
     (let q = rev (drop 1 (dropWhile (\<lambda>c. c \<noteq> CHR ''/'') (rev p)))
      in if q = [] then ''/'' else q)"

definition analyzerCandidates :: "string \<Rightarrow> string \<Rightarrow> string list" where
  \<comment> \<open>\<^verbatim>\<open>analyzerCandidates(stem)\<close>, the directory of the running module made explicit\<close>
  "analyzerCandidates dir stm =
     (let root = (if isDist dir then path_parent dir else dir);
          distAnalyzers = path_join root ''analyzers'';
          srcRoot = path_parent root;
          srcAnalyzers = path_join (path_join srcRoot ''src'') ''analyzers'';
          exts = [''.js'', ''.mjs'', ''.cjs'', ''.ts'']
      in map (\<lambda>ext. path_join distAnalyzers (stm @ ext)) exts
         @ map (\<lambda>ext. path_join srcAnalyzers (stm @ ext)) exts
         @ map (\<lambda>ext. path_join (path_join dir ''analyzers'') (stm @ ext)) exts)"

subsection \<open>Loading an analyzer module\<close>

text \<open>
  The first loop of \<^verbatim>\<open>importAnalyzerModule\<close>: a candidate that is no file is skipped;
  one that is a file is imported, and returned if it loads; if it throws, the error is
  recorded and the loop goes on.
\<close>

fun import_candidates ::
  "env \<Rightarrow> string list \<Rightarrow> string list \<Rightarrow> string list \<Rightarrow> event list
     \<Rightarrow> (module option \<times> string list \<times> string list) \<times> event list" where
  "import_candidates w [] tried errors evs = ((None, tried, errors), evs)"
| "import_candidates w (cand # rest) tried errors evs =
     (case stat w cand of
        Some File \<Rightarrow>
          (case evaluate w cand of
             Inr m \<Rightarrow> ((Some m, tried @ [cand], errors), evs @ [Import cand])
           | Inl e \<Rightarrow>
               import_candidates w rest (tried @ [cand])
                 (errors @ [cand @ '': '' @ exception_text e]) (evs @ [Import cand]))
      | _ \<Rightarrow> import_candidates w rest (tried @ [cand]) errors evs)"

definition dynamic_import :: "env \<Rightarrow> string \<Rightarrow> thrown + module" where
  \<comment> \<open>\<^verbatim>\<open>import()\<close> of the module at a path: there must be a file; the messages are those
      of Node's \<^verbatim>\<open>ERR_MODULE_NOT_FOUND\<close> and \<^verbatim>\<open>ERR_UNSUPPORTED_DIR_IMPORT\<close>\<close>
  "dynamic_import w p =
     (case stat w p of
        Some File \<Rightarrow> evaluate w p
      | Some Directory \<Rightarrow>
          Inl (ThrownError ''Error''
                (''Directory import '' @ [CHR 0x27] @ p @ [CHR 0x27]
                 @ '' is not supported resolving ES modules imported from ''
                 @ path_join (here w) ''index.js''))
      | _ \<Rightarrow>
          Inl (ThrownError ''Error''
                (''Cannot find module '' @ [CHR 0x27] @ p @ [CHR 0x27] @ '' imported from ''
                 @ path_join (here w) ''index.js'')))"

text \<open>
  The second loop: the relative specifiers \<^verbatim>\<open>./analyzers/<stem>.js\<close> and \<^verbatim>\<open>.mjs\<close>, which
  the runtime resolves against the directory of the importing module.
\<close>

fun import_relative ::
  "env \<Rightarrow> string \<Rightarrow> string list \<Rightarrow> string list \<Rightarrow> string list \<Rightarrow> event list
     \<Rightarrow> (module option \<times> string list \<times> string list) \<times> event list" where
  "import_relative w stm [] tried errors evs = ((None, tried, errors), evs)"
| "import_relative w stm (ext # exts) tried errors evs =
     (let rel = ''./analyzers/'' @ stm @ ext
      in case dynamic_import w (path_join (path_join (here w) ''analyzers'') (stm @ ext)) of
           Inr m \<Rightarrow> ((Some m, tried @ [rel], errors), evs @ [Import rel])
         | Inl e \<Rightarrow>
             import_relative w stm exts (tried @ [rel])
               (errors @ [rel @ '': '' @ exception_text e]) (evs @ [Import rel]))"

definition importAnalyzerModule ::
  "env \<Rightarrow> string \<Rightarrow> (module option \<times> string list \<times> string list) \<times> event list" where
  "importAnalyzerModule w stm =
     (case import_candidates w (analyzerCandidates (here w) stm) [] [] [] of
        ((Some m, tried, errors), evs) \<Rightarrow> ((Some m, tried, errors), evs)
      | ((None, tried, errors), evs) \<Rightarrow>
          import_relative w stm [''.js'', ''.mjs''] tried errors evs)"

subsection \<open>Running one analyzer\<close>

definition is_function :: "export \<Rightarrow> bool" where
  "is_function v = (case v of Function _ \<Rightarrow> True | NotFunction \<Rightarrow> False)"

definition find_function :: "module \<Rightarrow> string \<Rightarrow> (string \<Rightarrow> outcome) option" where
  \<comment> \<open>\<^verbatim>\<open>mod[entry.fnName]\<close>, else the first exported function\<close>
  "find_function m name =
     (case map_of m name of
        Some (Function fn) \<Rightarrow> Some fn
      | _ \<Rightarrow> (case find is_function (map snd m) of Some (Function fn) \<Rightarrow> Some fn | _ \<Rightarrow> None))"

definition load_issue :: "Entry \<Rightarrow> string list \<Rightarrow> string list \<Rightarrow> Finding" where
  "load_issue entry tried errors =
     (let msg = ''Module not found for analyzer '' @ [CHR 0x22] @ e_title entry @ [CHR 0x22]
                @ '' (stem='' @ [CHR 0x22] @ stem entry @ [CHR 0x22] @ ''). Tried:'' @ [CHR 0x0A]
                @ join [CHR 0x0A] (map (\<lambda>p. [CHR 0xE2, CHR 0x80, CHR 0xA2] @ '' '' @ p) tried);
          hint = (if errors \<noteq> []
                  then [CHR 0x0A] @ ''Errors:'' @ [CHR 0x0A]
                       @ join [CHR 0x0A] (map (\<lambda>e. ''- '' @ e) errors)
                  else [])
      in \<lparr>f_id = ''load-'' @ e_id entry,
          f_title = ''Analyzer not loaded: '' @ e_title entry,
          f_message = msg @ hint,
          f_suggestion = None, f_severity = ''high'', f_status = ''fail'',
          f_file = None, f_artifacts = None\<rparr>)"

definition no_fn_issue :: "Entry \<Rightarrow> Finding" where
  "no_fn_issue entry =
     \<lparr>f_id = ''no-fn-'' @ e_id entry,
      f_title = ''Analyzer export missing: '' @ e_title entry,
      f_message = ''Module loaded but export '' @ [CHR 0x22] @ fnName entry @ [CHR 0x22]
                  @ '' not found.'',
      f_suggestion = None, f_severity = ''high'', f_status = ''fail'',
      f_file = None, f_artifacts = None\<rparr>"

definition error_category :: "Entry \<Rightarrow> thrown \<Rightarrow> Category" where
  \<comment> \<open>the \<^verbatim>\<open>catch\<close> branch of \<^verbatim>\<open>runAnalyzer\<close>\<close>
  "error_category entry e =
     \<lparr>c_id = JStr (e_id entry), c_title = JStr (e_title entry),
      c_findings =
        [\<lparr>f_id = ''analyzer-error'', f_title = ''Analyzer failed'',
          f_message = exception_text e,
          f_suggestion = None, f_severity = ''high'', f_status = ''fail'',
          f_file = None, f_artifacts = None\<rparr>],
      c_score = None, c_maxPoints = None\<rparr>"

definition settle :: "Entry \<Rightarrow> outcome \<Rightarrow> Category option" where
  \<comment> \<open>\<^verbatim>\<open>await fn(targetDir)\<close> and \<^verbatim>\<open>normalizeCategory\<close> inside the \<^verbatim>\<open>try\<close>: a throw,
      a rejection and a throw of the normalisation all end in the \<^verbatim>\<open>catch\<close>\<close>
  "settle entry res =
     (case res of
        Throws e \<Rightarrow> Some (error_category entry e)
      | Rejects e \<Rightarrow> Some (error_category entry e)
      | Returns out \<Rightarrow>
          (case normalizeCategory entry out of
             Inl e \<Rightarrow> Some (error_category entry e)
           | Inr normalized \<Rightarrow> normalized))"

definition runAnalyzer ::
  "env \<Rightarrow> Entry \<Rightarrow> string \<Rightarrow> (Category option \<times> Finding option) \<times> event list" where
  "runAnalyzer w entry targetDir =
     (case importAnalyzerModule w (stem entry) of
        ((None, tried, errors), evs) \<Rightarrow> ((None, Some (load_issue entry tried errors)), evs)
      | ((Some m, tried, errors), evs) \<Rightarrow>
          (case find_function m (fnName entry) of
             None \<Rightarrow> ((None, Some (no_fn_issue entry)), evs)
           | Some fn \<Rightarrow> ((settle entry (fn targetDir), None), evs @ [Invoke (e_id entry)])))"

section \<open>The orchestrator \<^verbatim>\<open>runAudit\<close>\<close>

record AuditResult =
  targetDir :: string
  timestamp :: string
  categories :: "Category list"
  overallScore :: int

record RunOptions =
  outDir :: "string option"
  writeHtml :: "bool option"
  writeJson :: bool

fun run_analyzers ::
  "env \<Rightarrow> Entry list \<Rightarrow> string \<Rightarrow> Category list \<Rightarrow> Finding list \<Rightarrow> event list
     \<Rightarrow> (Category list \<times> Finding list) \<times> event list" where
  \<comment> \<open>the loop over the registry: \<^verbatim>\<open>cats.push(cat)\<close>, \<^verbatim>\<open>loadIssues.push(loadIssue)\<close>\<close>
  "run_analyzers w [] t cats loadIssues evs = ((cats, loadIssues), evs)"
| "run_analyzers w (entry # rest) t cats loadIssues evs =
     (case runAnalyzer w entry t of
        ((cat, loadIssue), l) \<Rightarrow>
          run_analyzers w rest t
            (case cat of None \<Rightarrow> cats | Some c \<Rightarrow> cats @ [c])
            (case loadIssue of None \<Rightarrow> loadIssues | Some i \<Rightarrow> loadIssues @ [i])
            (evs @ l))"

definition load_category :: "Finding list \<Rightarrow> Category" where
  "load_category loadIssues =
     \<lparr>c_id = JStr ''analyzer-load'', c_title = JStr ''Analyzer Load Issues'',
      c_findings = loadIssues, c_score = None, c_maxPoints = None\<rparr>"

definition like :: "Finding \<Rightarrow> FindingLike" where
  \<comment> \<open>the two fields of a finding that the scoring reads\<close>
  "like f = \<lparr>fl_severity = Some (f_severity f), fl_status = Some (f_status f)\<rparr>"

definition score_category :: "Category \<Rightarrow> Category" where
  \<comment> \<open>\<^verbatim>\<open>c.score = score; c._maxPoints = maxPoints\<close>\<close>
  "score_category c =
     (let b = computeCategoryScore (map like (c_findings c))
      in c\<lparr>c_score := Some (score b), c_maxPoints := Some (maxPoints b)\<rparr>)"

definition scored :: "Category \<Rightarrow> ScoredCategory" where
  \<comment> \<open>\<^verbatim>\<open>{ score: c.score || 0, _maxPoints: c._maxPoints || 0 }\<close>\<close>
  "scored c =
     \<lparr>sc_score = (case c_score c of None \<Rightarrow> 0 | Some s \<Rightarrow> s),
      sc_maxPoints = Some (case c_maxPoints c of None \<Rightarrow> Num 0 | Some p \<Rightarrow> p)\<rparr>"

definition assemble :: "env \<Rightarrow> string \<Rightarrow> Category list \<Rightarrow> Finding list \<Rightarrow> AuditResult" where
  \<comment> \<open>from the \<^verbatim>\<open>unshift\<close> of the load issues to the \<^verbatim>\<open>result\<close> object\<close>
  "assemble w t cats loadIssues =
     (let cats1 = (if loadIssues \<noteq> [] then load_category loadIssues # cats else cats);
          cats2 = map score_category cats1
      in \<lparr>targetDir = resolve w t, timestamp = now w, categories = cats2,
          overallScore = computeOverallScore (map scored cats2)\<rparr>)"

definition emit :: "env \<Rightarrow> RunOptions \<Rightarrow> thrown option \<times> event list" where
  \<comment> \<open>the writes after the result is assembled; the first that fails ends the run\<close>
  "emit w options =
     (let dir = (case outDir options of
                   None \<Rightarrow> default_outDir w
                 | Some d \<Rightarrow> if d \<noteq> [] then d else default_outDir w)
      in case io_mkdir w dir of
           Some e \<Rightarrow> (Some e, [Mkdir dir])
         | None \<Rightarrow>
             (let html = (if writeHtml options \<noteq> Some False then [WriteHtml dir] else [])
              in case (if writeHtml options \<noteq> Some False then io_writeHtml w dir else None) of
                   Some e \<Rightarrow> (Some e, Mkdir dir # html)
                 | None \<Rightarrow>
                     if writeJson options
                     then (io_writeFile w (path_join dir ''report.json''),
                           Mkdir dir # html @ [WriteFile (path_join dir ''report.json'')])
                     else (None, Mkdir dir # html)))"

definition runAudit_with ::
  "Entry list \<Rightarrow> env \<Rightarrow> string \<Rightarrow> RunOptions \<Rightarrow> (thrown + AuditResult) \<times> event list" where
  \<comment> \<open>\<^verbatim>\<open>runAudit\<close> with the registry as a parameter: the result or the error thrown, and
      what was done\<close>
  "runAudit_with registry w t options =
     (case stat w t of
        Some Directory \<Rightarrow>
          (case run_analyzers w registry t [] [] [] of
             ((cats, loadIssues), evs) \<Rightarrow>
               (case emit w options of
                  (Some e, written) \<Rightarrow> (Inl e, evs @ written)
                | (None, written) \<Rightarrow> (Inr (assemble w t cats loadIssues), evs @ written)))
      | _ \<Rightarrow> (Inl (ThrownError ''Error'' (''Target directory not found: '' @ t)), []))"

definition runAudit :: "env \<Rightarrow> string \<Rightarrow> RunOptions \<Rightarrow> (thrown + AuditResult) \<times> event list" where
  "runAudit = runAudit_with ANALYZERS"

section \<open>What the specification says of the scores\<close>

text \<open>
  The severity weights in the specification's words: info 1, low 2, medium 4, high 8,
  critical 12, and a missing or unknown severity counted as low.
\<close>

definition weight :: "string option \<Rightarrow> int" where
  "weight s =
     (if s = Some ''info'' then 1
      else if s = Some ''low'' then 2
      else if s = Some ''medium'' then 4
      else if s = Some ''high'' then 8
      else if s = Some ''critical'' then 12
      else 2)"

definition passed :: "FindingLike \<Rightarrow> bool" where
  "passed f = (fl_status f = Some ''pass'')"

definition spec_maxPoints :: "FindingLike list \<Rightarrow> int" where
  "spec_maxPoints fs = (\<Sum>f\<leftarrow>fs. weight (fl_severity f))"

definition spec_earnedPoints :: "FindingLike list \<Rightarrow> int" where
  "spec_earnedPoints fs = (\<Sum>f\<leftarrow>filter passed fs. weight (fl_severity f))"

definition own_or_unknown :: "FindingLike \<Rightarrow> bool" where
  \<comment> \<open>the severity is not the name of a property that every object inherits\<close>
  "own_or_unknown f =
     (case fl_severity f of None \<Rightarrow> True | Some s \<Rightarrow> s \<notin> set Object_prototype_keys)"

definition effective_weight :: "ScoredCategory \<Rightarrow> int" where
  \<comment> \<open>the weight of a category in the overall score: its \<^verbatim>\<open>_maxPoints\<close> when that is a
      positive number, otherwise 0\<close>
  "effective_weight c = (case sc_maxPoints c of Some (Num n) \<Rightarrow> max 0 n | _ \<Rightarrow> 0)"

definition deduction :: "StatusSeverity \<Rightarrow> int" where
  "deduction f =
     (if ss_status f = ''fail''
      then DEDUCT (case ss_severity f of None \<Rightarrow> Info | Some v \<Rightarrow> v) else 0)"

section \<open>Notions used in the statements about a run\<close>

definition analyzer_outcome :: "env \<Rightarrow> Entry \<Rightarrow> string \<Rightarrow> outcome option" where
  \<comment> \<open>what the analyzer of a registry entry does when the runner invokes it; \<open>None\<close> when no
      module loads for the entry or the module exports no function\<close>
  "analyzer_outcome w entry t =
     (case fst (fst (importAnalyzerModule w (stem entry))) of
        None \<Rightarrow> None
      | Some m \<Rightarrow> (case find_function m (fnName entry) of None \<Rightarrow> None | Some fn \<Rightarrow> Some (fn t)))"

definition returns_falsy :: "env \<Rightarrow> Entry \<Rightarrow> string \<Rightarrow> bool" where
  "returns_falsy w entry t =
     (case analyzer_outcome w entry t of Some (Returns v) \<Rightarrow> \<not> truthy v | _ \<Rightarrow> False)"

definition load_issues :: "env \<Rightarrow> Entry list \<Rightarrow> string \<Rightarrow> Finding list" where
  \<comment> \<open>the load issues that \<^verbatim>\<open>runAnalyzer\<close> returns for the entries, in registry order\<close>
  "load_issues w registry t = List.map_filter (\<lambda>e. snd (fst (runAnalyzer w e t))) registry"

definition analyzer_categories :: "env \<Rightarrow> Entry list \<Rightarrow> string \<Rightarrow> Category list" where
  \<comment> \<open>the categories that \<^verbatim>\<open>runAnalyzer\<close> returns for the entries, in registry order\<close>
  "analyzer_categories w registry t = List.map_filter (\<lambda>e. fst (fst (runAnalyzer w e t))) registry"



subsection \<open>Concrete worlds\<close>

definition quiet_world :: env where
  \<comment> \<open>a project directory at \<^verbatim>\<open>/proj\<close>, no analyzer module on disk, writes succeed\<close>
  "quiet_world =
     \<lparr>here = ''/app/dist/src'',
      stat = (\<lambda>p. if p = ''/proj'' then Some Directory else None),
      evaluate = (\<lambda>p. Inl (ThrownError ''SyntaxError'' ''Unexpected token'')),
      resolve = (\<lambda>p. p), now = ''2025-01-01T00:00:00.000Z'',
      default_outDir = ''/cwd/audit-report'',
      io_mkdir = (\<lambda>d. None), io_writeHtml = (\<lambda>d. None), io_writeFile = (\<lambda>d. None)\<rparr>"

definition default_options :: RunOptions where
  "default_options = \<lparr>outDir = None, writeHtml = None, writeJson = False\<rparr>"

definition null_world :: env where
  \<comment> \<open>every analyzer module is on disk and exports one function, which returns \<^verbatim>\<open>null\<close>\<close>
  "null_world =
     \<lparr>here = ''/app/dist/src'',
      stat = (\<lambda>p. if p = ''/proj'' then Some Directory else Some File),
      evaluate = (\<lambda>p. Inr [(''analyze'', Function (\<lambda>t. Returns JNull))]),
      resolve = (\<lambda>p. p), now = ''2025-01-01T00:00:00.000Z'',
      default_outDir = ''/cwd/audit-report'',
      io_mkdir = (\<lambda>d. None), io_writeHtml = (\<lambda>d. None), io_writeFile = (\<lambda>d. None)\<rparr>"



chapter \<open>Properties\<close>

section \<open>Binary64 rounding of integers\<close>

lemma round_ties_even_of_int: "round_ties_even (of_int z) = z"
  by (simp add: round_ties_even_def)

lemma round_ties_even_ge_floor: "\<lfloor>r\<rfloor> \<le> round_ties_even r"
  by (simp add: round_ties_even_def Let_def)

lemma flog2_of_int:
  assumes "0 < n"
  shows "flog2 (of_int n) = bitlen n - 1"
proof -
  from bitlen_bounds [OF assms] have "2 ^ nat (bitlen n - 1) \<le> n" by simp
  then have "(of_int (2 ^ nat (bitlen n - 1)) :: rat) \<le> of_int n"
    by (simp only: of_int_le_iff)
  moreover have "0 \<le> bitlen n - 1"
    using assms bitlen_bounds [OF assms] by (smt (verit) bitlen_nonneg bitlen_eq_zero_iff)
  ultimately have "power_int (2::rat) (bitlen n - 1) \<le> of_int n"
    by (simp add: power_int_def)
  moreover have "bitlen 1 = 1" by (simp add: bitlen_alt_def)
  ultimately show ?thesis
    by (simp add: flog2_def)
qed

lemma bitlen_less_pow:
  assumes "0 < n" and "n < 2 ^ 53"
  shows "bitlen n \<le> 53"
  using assms by (simp add: bitlen_le_iff_power)

lemma fl64_exact:
  assumes "\<bar>n\<bar> < 2 ^ 53"
  shows "fl64 (of_int n) = of_int n"
proof (cases "n = 0")
  case True
  then show ?thesis by (simp add: fl64_def)
next
  case False
  then have pos: "0 < \<bar>n\<bar>" by simp
  have abs: "\<bar>of_int n :: rat\<bar> = of_int \<bar>n\<bar>" by simp
  define k where "k = bitlen \<bar>n\<bar> - 1"
  have k: "flog2 \<bar>of_int n\<bar> = k"
    unfolding abs k_def using pos by (rule flog2_of_int)
  from pos have "1 \<le> bitlen \<bar>n\<bar>"
    by (smt (verit) bitlen_nonneg bitlen_eq_zero_iff)
  with bitlen_less_pow [OF pos assms] have range: "0 \<le> k" "k \<le> 52"
    by (simp_all add: k_def)
  define e where "e = max (k - 52) (- 1074)"
  from range have e: "e \<le> 0" "- 1074 \<le> e" by (simp_all add: e_def)
  have scaled: "(of_int n :: rat) / power_int 2 e = of_int (n * 2 ^ nat (- e))"
    using e by (simp add: power_int_def field_simps)
  have unscale: "(of_int (n * 2 ^ nat (- e)) :: rat) * power_int 2 e = of_int n"
    using e by (simp add: power_int_def field_simps)
  from False show ?thesis
    by (simp add: fl64_def k e_def [symmetric] Let_def scaled round_ties_even_of_int unscale
        del: of_int_mult of_int_power)
qed

lemma fl64_ge_one:
  assumes "1 \<le> n"
  shows "\<exists>m. 1 \<le> m \<and> fl64 (of_int n) = of_int m"
proof (cases "n < 2 ^ 53")
  case True
  with assms have "fl64 (of_int n) = of_int n" by (intro fl64_exact) simp
  with assms show ?thesis by blast
next
  case False
  from assms have pos: "0 < n" by simp
  define k where "k = bitlen n - 1"
  have abs: "\<bar>of_int n :: rat\<bar> = of_int n" using assms by simp
  have k: "flog2 \<bar>of_int n\<bar> = k"
    unfolding abs k_def using pos by (rule flog2_of_int)
  from False have "\<not> bitlen n \<le> 53"
    by (simp add: bitlen_le_iff_power)
  then have big: "53 \<le> k" by (simp add: k_def)
  define e where "e = nat (k - 52)"
  from big have e: "max (k - 52) (- 1074) = int e" "0 < e" by (simp_all add: e_def)
  from bitlen_bounds [OF pos] have "2 ^ nat k \<le> n" by (simp add: k_def)
  moreover from big have "nat k = 52 + e" by (simp add: e_def)
  ultimately have low: "2 ^ 52 * 2 ^ e \<le> n" by (simp add: power_add)
  define m where "m = round_ties_even (of_int n / 2 ^ e)"
  have "(2 ^ 52 :: rat) \<le> of_int n / 2 ^ e"
  proof -
    from low have "(of_int (2 ^ 52 * 2 ^ e) :: rat) \<le> of_int n"
      by (simp only: of_int_le_iff)
    then show ?thesis by (simp add: field_simps)
  qed
  then have "of_int (2 ^ 52 :: int) \<le> (of_int n :: rat) / 2 ^ e"
    by simp
  then have "(2 ^ 52 :: int) \<le> \<lfloor>(of_int n :: rat) / 2 ^ e\<rfloor>"
    by (simp only: le_floor_iff)
  then have m: "2 ^ 52 \<le> m"
    unfolding m_def using round_ties_even_ge_floor [of "of_int n / 2 ^ e"]
    by (rule order_trans)
  have k': "flog2 (of_int n) = k"
    unfolding k_def using pos by (rule flog2_of_int)
  have "fl64 (of_int n) = of_int m * 2 ^ e"
    using pos by (simp add: fl64_def k' e Let_def m_def)
  also have "\<dots> = of_int (m * 2 ^ e)" by simp
  finally have "fl64 (of_int n) = of_int (m * 2 ^ e)" .
  moreover from m have "1 \<le> m * 2 ^ e"
    by (smt (verit) mult_le_cancel_left1 one_le_numeral one_le_power mult.commute zero_less_power)
  ultimately show ?thesis by blast
qed

section \<open>Category score\<close>

lemma weight_pos: "0 < weight s"
  by (simp add: weight_def)

lemma nullish_or_WEIGHT:
  assumes "k \<notin> set Object_prototype_keys"
  shows "nullish_or (WEIGHT k) (WEIGHT ''low'') = PropNumber (weight (Some k))"
  using assms by (simp add: nullish_or_def WEIGHT_def weight_def)

lemma nullish_or_WEIGHT_low:
  "nullish_or (WEIGHT ''low'') (WEIGHT ''low'') = PropNumber (weight None)"
  by (simp add: nullish_or_def WEIGHT_def weight_def)

lemma category_loop_sums:
  assumes "\<forall>f\<in>set fs. own_or_unknown f"
  shows "category_loop fs (Num a) (Num b) =
           (Num (a + spec_maxPoints fs), Num (b + spec_earnedPoints fs))"
  using assms
proof (induction fs arbitrary: a b)
  case Nil
  then show ?case by (simp add: spec_maxPoints_def spec_earnedPoints_def)
next
  case (Cons f fs)
  have w: "nullish_or (WEIGHT (case fl_severity f of None \<Rightarrow> ''low'' | Some s \<Rightarrow> s))
             (WEIGHT ''low'') = PropNumber (weight (fl_severity f))"
  proof (cases "fl_severity f")
    case None
    then show ?thesis by (simp add: nullish_or_WEIGHT_low)
  next
    case (Some s)
    with Cons.prems have "s \<notin> set Object_prototype_keys"
      by (simp add: own_or_unknown_def)
    with Some show ?thesis by (simp add: nullish_or_WEIGHT)
  qed
  from Cons.prems have rest: "\<forall>f\<in>set fs. own_or_unknown f" by simp
  show ?case
    by (simp add: w Let_def Cons.IH [OF rest] spec_maxPoints_def spec_earnedPoints_def
        passed_def)
qed

lemma spec_maxPoints_pos: "fs \<noteq> [] \<Longrightarrow> 0 < spec_maxPoints fs"
proof (induction fs)
  case Nil
  then show ?case by simp
next
  case (Cons f fs)
  have "0 \<le> spec_maxPoints fs"
    by (cases "fs = []") (use Cons.IH in \<open>auto simp: spec_maxPoints_def\<close>)
  with weight_pos [of "fl_severity f"] show ?case
    by (simp add: spec_maxPoints_def)
qed

lemma computeCategoryScore_sums:
  assumes "\<forall>f\<in>set fs. own_or_unknown f" and "fs \<noteq> []"
  shows "computeCategoryScore fs =
           \<lparr>score = percentage (spec_earnedPoints fs) (spec_maxPoints fs),
            maxPoints = Num (spec_maxPoints fs),
            earnedPoints = Num (spec_earnedPoints fs)\<rparr>"
  using assms spec_maxPoints_pos [of fs]
  by (simp add: computeCategoryScore_def category_loop_sums category_score_def)

lemma category_loop_earned_Str:
  "category_loop fs maxP earnedP = (m, Str) \<Longrightarrow> earnedP = Str \<or> m = Str"
proof (induction fs arbitrary: maxP earnedP)
  case Nil
  then show ?case by simp
next
  case (Cons f fs)
  let ?w = "nullish_or (WEIGHT (case fl_severity f of None \<Rightarrow> ''low'' | Some s \<Rightarrow> s))
              (WEIGHT ''low'')"
  have stays: "category_loop gs Str e = (m', e') \<Longrightarrow> m' = Str" for gs e m' e'
    by (induction gs arbitrary: e) (simp_all add: Let_def)
  show ?case
  proof (cases "fl_status f = Some ''pass''")
    case False
    with Cons.prems have "category_loop fs (plus_assign maxP ?w) earnedP = (m, Str)"
      by (simp add: Let_def)
    then show ?thesis using Cons.IH by blast
  next
    case True
    with Cons.prems
    have run: "category_loop fs (plus_assign maxP ?w) (plus_assign earnedP ?w) = (m, Str)"
      by (simp add: Let_def)
    then have "plus_assign earnedP ?w = Str \<or> m = Str" using Cons.IH by blast
    then show ?thesis
    proof
      assume "m = Str"
      then show ?thesis by simp
    next
      assume e: "plus_assign earnedP ?w = Str"
      show ?thesis
      proof (cases earnedP)
        case Str
        then show ?thesis by simp
      next
        case (Num a)
        with e have "\<forall>b. ?w \<noteq> PropNumber b" by auto
        then have "plus_assign maxP ?w = Str"
          by (cases maxP; cases ?w) auto
        with run stays show ?thesis by metis
      qed
    qed
  qed
qed

text \<open>The binary64 value nearest to one tenth, as \<open>fl64\<close> computes it.\<close>

lemma fl64_tenth: "fl64 (1 / 10) = 3602879701896397 / 36028797018963968"
  by code_simp

lemma percentage_1_13: "percentage 1 13 = 8"
  by code_simp

lemma floor_half: "\<lfloor>1 / 2 :: rat\<rfloor> = 0"
  by (rule floor_unique) simp_all

lemma percentage_0: "percentage 0 m = 0"
  by (simp add: percentage_def js_div_def js_mul_def fl64_def Math_round_def floor_half)

text \<open>
  The rounding is that of the machine: 23 points earned of 40 are 57.5 per cent, but the
  binary64 product \<^verbatim>\<open>(23 / 40) * 100\<close> is 57.49999999999999, and the score is 57.
\<close>

lemma percentage_23_40: "percentage 23 40 = 57"
  by code_simp

text \<open>
  \<^bold>\<open>C1.\<close> For every list of findings the category score is
  \<^verbatim>\<open>round(earnedPoints / maxPoints * 100)\<close> (the division and the product in binary64
  arithmetic, as the code computes them), where \<^verbatim>\<open>maxPoints\<close> is the sum of the
  findings' weights (info 1, low 2, medium 4, high 8, critical 12) and
  \<^verbatim>\<open>earnedPoints\<close> the sum of the weights of the findings whose status is \<^verbatim>\<open>'pass'\<close>;
  no findings give score 100 with \<^verbatim>\<open>maxPoints\<close> 0; a critical failure and an info pass
  give \<^verbatim>\<open>maxPoints\<close> 13, \<^verbatim>\<open>earnedPoints\<close> 1 and score 8. The findings range over those
  whose severity is one of the five names, missing, or any other string that is not a
  property name inherited by every object.
\<close>

theorem C1_category_score:
  "((\<forall>f\<in>set fs. own_or_unknown f) \<longrightarrow>
      computeCategoryScore fs =
        \<lparr>score = (if fs = [] then 100
                  else Math_round (js_mul (js_div (spec_earnedPoints fs) (spec_maxPoints fs)) 100)),
         maxPoints = Num (spec_maxPoints fs),
         earnedPoints = Num (spec_earnedPoints fs)\<rparr>)
   \<and> weight (Some ''info'') = 1 \<and> weight (Some ''low'') = 2 \<and> weight (Some ''medium'') = 4
   \<and> weight (Some ''high'') = 8 \<and> weight (Some ''critical'') = 12
   \<and> computeCategoryScore [] = \<lparr>score = 100, maxPoints = Num 0, earnedPoints = Num 0\<rparr>
   \<and> computeCategoryScore
        [\<lparr>fl_severity = Some ''critical'', fl_status = Some ''fail''\<rparr>,
         \<lparr>fl_severity = Some ''info'', fl_status = Some ''pass''\<rparr>]
       = \<lparr>score = 8, maxPoints = Num 13, earnedPoints = Num 1\<rparr>"
proof -
  have general: "computeCategoryScore fs =
        \<lparr>score = (if fs = [] then 100
                  else Math_round (js_mul (js_div (spec_earnedPoints fs) (spec_maxPoints fs)) 100)),
         maxPoints = Num (spec_maxPoints fs),
         earnedPoints = Num (spec_earnedPoints fs)\<rparr>"
    if "\<forall>f\<in>set fs. own_or_unknown f"
  proof (cases "fs = []")
    case True
    then show ?thesis
      by (simp add: computeCategoryScore_def spec_maxPoints_def spec_earnedPoints_def)
  next
    case False
    with that show ?thesis
      by (simp add: computeCategoryScore_sums percentage_def)
  qed
  have weights: "weight (Some ''info'') = 1" "weight (Some ''low'') = 2"
    "weight (Some ''medium'') = 4" "weight (Some ''high'') = 8" "weight (Some ''critical'') = 12"
    by (simp_all add: weight_def)
  have empty: "computeCategoryScore [] = \<lparr>score = 100, maxPoints = Num 0, earnedPoints = Num 0\<rparr>"
    by (simp add: computeCategoryScore_def)
  have example: "computeCategoryScore
        [\<lparr>fl_severity = Some ''critical'', fl_status = Some ''fail''\<rparr>,
         \<lparr>fl_severity = Some ''info'', fl_status = Some ''pass''\<rparr>]
       = \<lparr>score = 8, maxPoints = Num 13, earnedPoints = Num 1\<rparr>"
    by (simp add: computeCategoryScore_def WEIGHT_def nullish_or_def category_score_def
        percentage_1_13)
  from general weights empty example show ?thesis by blast
qed

theorem C1_category_score_witness:
  "list_all own_or_unknown [\<lparr>fl_severity = Some ''high'', fl_status = Some ''pass''\<rparr>,
                            \<lparr>fl_severity = None, fl_status = None\<rparr>]
   \<and> computeCategoryScore [\<lparr>fl_severity = Some ''high'', fl_status = Some ''pass''\<rparr>,
                           \<lparr>fl_severity = None, fl_status = None\<rparr>]
       = \<lparr>score = Math_round (js_mul (js_div 8 10) 100), maxPoints = Num 10,
          earnedPoints = Num 8\<rparr>"
  using C1_category_score
    [of "[\<lparr>fl_severity = Some ''high'', fl_status = Some ''pass''\<rparr>,
          \<lparr>fl_severity = None, fl_status = None\<rparr>]"]
  by (simp add: own_or_unknown_def Object_prototype_keys_def spec_maxPoints_def
      spec_earnedPoints_def passed_def weight_def)

section \<open>Overall score\<close>

lemma effective_weight_nonneg: "0 \<le> effective_weight c"
  by (simp add: effective_weight_def split: option.split points.split)

lemma Math_max0_effective:
  "Math_max0 (sc_maxPoints c) = Num w \<Longrightarrow> effective_weight c = w"
  "Math_max0 (sc_maxPoints c) = Str \<Longrightarrow> effective_weight c = 0"
  by (auto simp: Math_max0_def effective_weight_def split: option.splits points.splits)

lemma overall_loop_step:
  "overall_loop (c # cs) a b =
     (if 0 < effective_weight c
      then overall_loop cs
             (js_add a (js_mul (of_int (sc_score c)) (of_int (effective_weight c))))
             (js_add b (of_int (effective_weight c)))
      else overall_loop cs a b)"
  by (cases "Math_max0 (sc_maxPoints c)") (auto dest: Math_max0_effective)

declare overall_loop.simps(2) [simp del]

lemma sum_weights_nonneg: "0 \<le> (\<Sum>c\<leftarrow>cs. effective_weight c)"
  by (rule sum_list_nonneg) (auto simp: effective_weight_nonneg)

lemma sum_abs_weighted_nonneg: "0 \<le> (\<Sum>c\<leftarrow>cs. \<bar>sc_score c\<bar> * effective_weight c)"
  by (rule sum_list_nonneg) (auto simp: effective_weight_nonneg)

lemma sum_abs_scores_nonneg: "0 \<le> (\<Sum>c\<leftarrow>cs. \<bar>sc_score c\<bar>)"
  by (rule sum_list_nonneg) auto

text \<open>While the sums stay below \<open>2 ^ 53\<close> no addition and no product of the loop rounds.\<close>

lemma overall_loop_exact:
  assumes "\<bar>a\<bar> + (\<Sum>c\<leftarrow>cs. \<bar>sc_score c\<bar> * effective_weight c) < 2 ^ 53"
    and "0 \<le> b" and "b + (\<Sum>c\<leftarrow>cs. effective_weight c) < 2 ^ 53"
  shows "overall_loop cs (of_int a) (of_int b) =
           (of_int (a + (\<Sum>c\<leftarrow>cs. sc_score c * effective_weight c)),
            of_int (b + (\<Sum>c\<leftarrow>cs. effective_weight c)))"
  using assms
proof (induction cs arbitrary: a b)
  case Nil
  then show ?case by simp
next
  case (Cons c cs)
  let ?w = "effective_weight c"
  let ?s = "sc_score c"
  have w: "0 \<le> ?w" by (rule effective_weight_nonneg)
  have rest1: "0 \<le> (\<Sum>c\<leftarrow>cs. \<bar>sc_score c\<bar> * effective_weight c)"
    by (rule sum_abs_weighted_nonneg)
  have rest2: "0 \<le> (\<Sum>c\<leftarrow>cs. effective_weight c)"
    by (rule sum_weights_nonneg)
  from Cons.prems(1) have b1: "\<bar>a\<bar> + \<bar>?s\<bar> * ?w + (\<Sum>c\<leftarrow>cs. \<bar>sc_score c\<bar> * effective_weight c) < 2 ^ 53"
    by simp
  from Cons.prems(3) have b2: "b + ?w + (\<Sum>c\<leftarrow>cs. effective_weight c) < 2 ^ 53"
    by simp
  show ?case
  proof (cases "0 < ?w")
    case False
    with w have zero: "?w = 0" by simp
    with Cons.prems have "overall_loop cs (of_int a) (of_int b) =
           (of_int (a + (\<Sum>c\<leftarrow>cs. sc_score c * effective_weight c)),
            of_int (b + (\<Sum>c\<leftarrow>cs. effective_weight c)))"
      by (intro Cons.IH) simp_all
    with zero show ?thesis by (simp add: overall_loop_step)
  next
    case True
    have abs_prod: "\<bar>?s * ?w\<bar> = \<bar>?s\<bar> * ?w"
      using w by (simp add: abs_mult)
    have "\<bar>?s * ?w\<bar> < 2 ^ 53"
      using b1 rest1 unfolding abs_prod by linarith
    then have prod: "js_mul (of_int ?s) (of_int ?w) = of_int (?s * ?w)"
      using fl64_exact [of "?s * ?w"] by (simp add: js_mul_def)
    have in1: "\<bar>a + ?s * ?w\<bar> + (\<Sum>c\<leftarrow>cs. \<bar>sc_score c\<bar> * effective_weight c) < 2 ^ 53"
      using b1 abs_prod abs_triangle_ineq [of a "?s * ?w"] by linarith
    with rest1 have "\<bar>a + ?s * ?w\<bar> < 2 ^ 53" by linarith
    then have sum1: "js_add (of_int a) (of_int (?s * ?w)) = of_int (a + ?s * ?w)"
      using fl64_exact [of "a + ?s * ?w"] by (simp add: js_add_def)
    from Cons.prems(2) w b2 rest2 have "\<bar>b + ?w\<bar> < 2 ^ 53" by linarith
    then have sum2: "js_add (of_int b) (of_int ?w) = of_int (b + ?w)"
      using fl64_exact [of "b + ?w"] by (simp add: js_add_def)
    from Cons.prems(2) w have nonneg: "0 \<le> b + ?w" by simp
    have "overall_loop (c # cs) (of_int a) (of_int b) =
        overall_loop cs (js_add (of_int a) (js_mul (of_int ?s) (of_int ?w)))
          (js_add (of_int b) (of_int ?w))"
      using True by (simp only: overall_loop_step if_True)
    also have "\<dots> = overall_loop cs (of_int (a + ?s * ?w)) (of_int (b + ?w))"
      by (simp only: prod sum1 sum2)
    also have "\<dots> =
           (of_int (a + ?s * ?w + (\<Sum>c\<leftarrow>cs. sc_score c * effective_weight c)),
            of_int (b + ?w + (\<Sum>c\<leftarrow>cs. effective_weight c)))"
      using in1 nonneg b2 by (rule Cons.IH)
    finally show ?thesis
      by (simp add: add.assoc)
  qed
qed

text \<open>
  Whatever the magnitudes, a positive weight makes \<^verbatim>\<open>totalWeight\<close> positive, and a weight
  that is not positive leaves the loop's variables as they are.
\<close>

lemma overall_loop_positive:
  assumes "1 \<le> b \<or> (0 \<le> b \<and> (\<exists>c\<in>set cs. 0 < effective_weight c))"
  shows "\<exists>m. 1 \<le> m \<and> snd (overall_loop cs a (of_int b)) = of_int m"
  using assms
proof (induction cs arbitrary: a b)
  case Nil
  then show ?case by auto
next
  case (Cons c cs)
  show ?case
  proof (cases "0 < effective_weight c")
    case True
    from Cons.prems True have "1 \<le> b + effective_weight c" by auto
    then obtain m where m: "1 \<le> m"
      and "fl64 (of_int (b + effective_weight c)) = of_int m"
      using fl64_ge_one by blast
    then have "js_add (of_int b) (of_int (effective_weight c)) = of_int m"
      by (simp add: js_add_def)
    with True Cons.IH [of m] m show ?thesis
      by (simp add: overall_loop_step)
  next
    case False
    with Cons.prems have "1 \<le> b \<or> (0 \<le> b \<and> (\<exists>c\<in>set cs. 0 < effective_weight c))"
      by auto
    from Cons.IH [OF this] False show ?thesis
      by (simp add: overall_loop_step)
  qed
qed

lemma overall_loop_skip:
  assumes "effective_weight n = 0"
  shows "overall_loop (xs @ n # ys) a b = overall_loop (xs @ ys) a b"
proof (induction xs arbitrary: a b)
  case Nil
  from assms show ?case by (simp add: overall_loop_step)
next
  case (Cons x xs)
  then show ?case by (simp add: overall_loop_step)
qed

lemma overall_loop_no_weight:
  "\<forall>c\<in>set cs. effective_weight c = 0 \<Longrightarrow> overall_loop cs a b = (a, b)"
  by (induction cs arbitrary: a b) (simp_all add: overall_loop_step)

lemma fold_scores_exact:
  assumes "\<bar>a\<bar> + (\<Sum>c\<leftarrow>cs. \<bar>sc_score c\<bar>) < 2 ^ 53"
  shows "fold (\<lambda>c s. js_add s (of_int (sc_score c))) cs (of_int a) =
           of_int (a + (\<Sum>c\<leftarrow>cs. sc_score c))"
  using assms
proof (induction cs arbitrary: a)
  case Nil
  then show ?case by simp
next
  case (Cons c cs)
  have rest: "0 \<le> (\<Sum>c\<leftarrow>cs. \<bar>sc_score c\<bar>)" by (rule sum_abs_scores_nonneg)
  from Cons.prems have bound: "\<bar>a + sc_score c\<bar> + (\<Sum>c\<leftarrow>cs. \<bar>sc_score c\<bar>) < 2 ^ 53"
    using abs_triangle_ineq [of a "sc_score c"] by simp
  with rest have "\<bar>a + sc_score c\<bar> < 2 ^ 53" by linarith
  then have "js_add (of_int a) (of_int (sc_score c)) = of_int (a + sc_score c)"
    using fl64_exact [of "a + sc_score c"] by (simp add: js_add_def)
  with Cons.IH [OF bound] show ?case by (simp add: add.assoc)
qed

lemma sum_effective_weight_pos:
  "0 < (\<Sum>c\<leftarrow>cs. effective_weight c) \<longleftrightarrow> (\<exists>c\<in>set cs. 0 < effective_weight c)"
proof (induction cs)
  case Nil
  then show ?case by simp
next
  case (Cons c cs)
  have "0 \<le> (\<Sum>c\<leftarrow>cs. effective_weight c)"
    by (rule sum_weights_nonneg)
  with effective_weight_nonneg [of c] Cons.IH show ?case by auto
qed

lemma computeOverallScore_positive:
  assumes "cs \<noteq> []" and "overall_loop cs 0 0 = (w, t)" and "0 < t"
  shows "computeOverallScore cs = Math_round (js_quot w t)"
  using assms by (simp add: computeOverallScore_def)

lemma computeOverallScore_weighted:
  assumes "\<exists>c\<in>set cs. 0 < effective_weight c"
    and "(\<Sum>c\<leftarrow>cs. \<bar>sc_score c\<bar> * effective_weight c) < 2 ^ 53"
    and "(\<Sum>c\<leftarrow>cs. effective_weight c) < 2 ^ 53"
  shows "computeOverallScore cs =
           Math_round (js_div (\<Sum>c\<leftarrow>cs. sc_score c * effective_weight c)
                              (\<Sum>c\<leftarrow>cs. effective_weight c))"
proof -
  from assms(1) have "cs \<noteq> []" by auto
  moreover from assms(1) have "0 < (\<Sum>c\<leftarrow>cs. effective_weight c)"
    by (simp add: sum_effective_weight_pos)
  moreover have "overall_loop cs 0 0 =
      (of_int (\<Sum>c\<leftarrow>cs. sc_score c * effective_weight c),
       of_int (\<Sum>c\<leftarrow>cs. effective_weight c))"
    using overall_loop_exact [of 0 cs 0] assms(2,3) by simp
  ultimately show ?thesis
    by (simp add: computeOverallScore_def js_quot_def js_div_def)
qed

lemma mean_or_zero: "(if mean \<noteq> 0 then mean else 0) = (mean :: rat)"
  by simp

lemma computeOverallScore_unweighted:
  assumes "cs \<noteq> []" and "\<forall>c\<in>set cs. effective_weight c = 0"
    and "(\<Sum>c\<leftarrow>cs. \<bar>sc_score c\<bar>) < 2 ^ 53"
  shows "computeOverallScore cs =
           Math_round (js_div (\<Sum>c\<leftarrow>cs. sc_score c) (int (length cs)))"
proof -
  have "fold (\<lambda>c s. js_add s (of_int (sc_score c))) cs 0 = of_int (\<Sum>c\<leftarrow>cs. sc_score c)"
    using fold_scores_exact [of 0 cs] assms(3) by simp
  with assms(1) show ?thesis
    by (simp add: computeOverallScore_def overall_loop_no_weight [OF assms(2)] Let_def
        mean_or_zero js_quot_def js_div_def)
qed

text \<open>
  The sums do round once they pass \<open>2 ^ 53\<close>: with weights \<open>2 ^ 53\<close> and \<open>2 ^ 53 + 2\<close> the
  total weight is \<open>2 ^ 54\<close>, the quotient one half, and the score 1, where the exact mean
  rounds to 0.
\<close>

lemma computeOverallScore_rounds:
  "computeOverallScore
     [\<lparr>sc_score = 1, sc_maxPoints = Some (Num 9007199254740992)\<rparr>,
      \<lparr>sc_score = 0, sc_maxPoints = Some (Num 9007199254740994)\<rparr>] = 1"
  by code_simp

lemma computeOverallScore_example:
  "computeOverallScore
        [\<lparr>sc_score = 100, sc_maxPoints = Some (Num 10)\<rparr>,
         \<lparr>sc_score = 0, sc_maxPoints = Some (Num 30)\<rparr>] = 25"
  by code_simp

text \<open>
  \<^bold>\<open>C2.\<close> The overall score is the rounded mean of the category scores weighted by the
  categories' \<^verbatim>\<open>maxPoints\<close> (a missing or negative \<^verbatim>\<open>maxPoints\<close> weighing 0); when no
  category has a positive \<^verbatim>\<open>maxPoints\<close>, as when all are 0, it is the rounded unweighted
  mean of the scores; it is 100 for no categories; and scores 100 and 0 with \<^verbatim>\<open>maxPoints\<close>
  10 and 30 give 25. The sums of the weights, of the weighted scores and of the scores are
  taken below \<open>2 ^ 53\<close>, where binary64 additions are exact; the quotient is the binary64
  one.
\<close>

theorem C2_overall_score:
  "computeOverallScore [] = 100
   \<and> ((\<exists>c\<in>set cs. 0 < effective_weight c)
        \<and> (\<Sum>c\<leftarrow>cs. \<bar>sc_score c\<bar> * effective_weight c) < 2 ^ 53
        \<and> (\<Sum>c\<leftarrow>cs. effective_weight c) < 2 ^ 53 \<longrightarrow>
        computeOverallScore cs =
          Math_round (js_div (\<Sum>c\<leftarrow>cs. sc_score c * effective_weight c)
                             (\<Sum>c\<leftarrow>cs. effective_weight c)))
   \<and> (cs \<noteq> [] \<and> (\<forall>c\<in>set cs. effective_weight c = 0)
        \<and> (\<Sum>c\<leftarrow>cs. \<bar>sc_score c\<bar>) < 2 ^ 53 \<longrightarrow>
        computeOverallScore cs = Math_round (js_div (\<Sum>c\<leftarrow>cs. sc_score c) (int (length cs))))
   \<and> (sc_maxPoints c = Some (Num n) \<and> 0 \<le> n \<longrightarrow> effective_weight c = n)
   \<and> computeOverallScore
        [\<lparr>sc_score = 100, sc_maxPoints = Some (Num 10)\<rparr>,
         \<lparr>sc_score = 0, sc_maxPoints = Some (Num 30)\<rparr>] = 25"
proof -
  have "computeOverallScore [] = 100"
    by (simp add: computeOverallScore_def)
  moreover have "sc_maxPoints c = Some (Num n) \<and> 0 \<le> n \<longrightarrow> effective_weight c = n"
    by (simp add: effective_weight_def)
  ultimately show ?thesis
    using computeOverallScore_weighted [of cs] computeOverallScore_unweighted [of cs]
      computeOverallScore_example
    by blast
qed

lemma js_div_150_2: "Math_round (js_div 150 2) = 75"
  by code_simp

theorem C2_overall_score_witness:
  "computeOverallScore
     [\<lparr>sc_score = 50, sc_maxPoints = Some (Num 4)\<rparr>,
      \<lparr>sc_score = 100, sc_maxPoints = None\<rparr>,
      \<lparr>sc_score = 0, sc_maxPoints = Some (Num 10)\<rparr>,
      \<lparr>sc_score = 100, sc_maxPoints = Some (Num 0)\<rparr>] = 14
   \<and> computeOverallScore
     [\<lparr>sc_score = 50, sc_maxPoints = Some (Num 0)\<rparr>,
      \<lparr>sc_score = 100, sc_maxPoints = Some (Num 0)\<rparr>] = 75
   \<and> effective_weight \<lparr>sc_score = 50, sc_maxPoints = Some (Num 4)\<rparr> = 4"
proof -
  have a: "Math_round (js_div 200 14) = 14" by code_simp
  let ?cs = "[\<lparr>sc_score = 50, sc_maxPoints = Some (Num 4)\<rparr>,
      \<lparr>sc_score = 100, sc_maxPoints = None\<rparr>,
      \<lparr>sc_score = 0, sc_maxPoints = Some (Num 10)\<rparr>,
      \<lparr>sc_score = 100, sc_maxPoints = Some (Num 0)\<rparr>]"
  let ?ds = "[\<lparr>sc_score = 50, sc_maxPoints = Some (Num 0)\<rparr>,
      \<lparr>sc_score = 100, sc_maxPoints = Some (Num 0)\<rparr>]"
  from C2_overall_score [of ?cs "\<lparr>sc_score = 50, sc_maxPoints = Some (Num 4)\<rparr>" 4]
  have "computeOverallScore ?cs = 14"
    and "effective_weight \<lparr>sc_score = 50, sc_maxPoints = Some (Num 4)\<rparr> = 4"
    by (simp_all add: effective_weight_def a)
  moreover from C2_overall_score [of ?ds]
  have "computeOverallScore ?ds = 75"
    by (simp add: effective_weight_def js_div_150_2)
  ultimately show ?thesis by simp
qed

text \<open>
  \<^bold>\<open>C7.\<close> As stated (a new category with \<^verbatim>\<open>maxPoints\<close> 0 never changes the overall score,
  whatever the other categories) the claim fails where no category has a positive
  \<^verbatim>\<open>maxPoints\<close>: the score is then the unweighted mean, which the new category's score
  moves. One category of score 100 and \<^verbatim>\<open>maxPoints\<close> 0 has overall score 100; with a new
  category of score 0 and \<^verbatim>\<open>maxPoints\<close> 0 the overall score is 50.
\<close>

theorem C7_zero_weight_counterexample:
  "computeOverallScore [\<lparr>sc_score = 100, sc_maxPoints = Some (Num 0)\<rparr>] = 100
   \<and> computeOverallScore
       ([\<lparr>sc_score = 100, sc_maxPoints = Some (Num 0)\<rparr>]
        @ [\<lparr>sc_score = 0, sc_maxPoints = Some (Num 0)\<rparr>]) = 50
   \<and> computeOverallScore
       ([\<lparr>sc_score = 100, sc_maxPoints = Some (Num 0)\<rparr>]
        @ [\<lparr>sc_score = 0, sc_maxPoints = Some (Num 0)\<rparr>])
     \<noteq> computeOverallScore [\<lparr>sc_score = 100, sc_maxPoints = Some (Num 0)\<rparr>]"
  by code_simp

text \<open>
  \<^bold>\<open>C7, amended.\<close> When some category of the list has a positive \<^verbatim>\<open>maxPoints\<close>, a new
  category with \<^verbatim>\<open>maxPoints\<close> 0, put anywhere into the list, leaves the overall score as it
  was, whatever the new category's score.
\<close>

theorem C7_zero_weight_category:
  assumes "\<exists>c\<in>set (xs @ ys). 0 < effective_weight c"
    and "sc_maxPoints n = Some (Num 0)"
  shows "computeOverallScore (xs @ n # ys) = computeOverallScore (xs @ ys)"
proof -
  from assms(2) have n: "effective_weight n = 0"
    by (simp add: effective_weight_def)
  have same: "overall_loop (xs @ n # ys) 0 0 = overall_loop (xs @ ys) 0 0"
    using n by (rule overall_loop_skip)
  from assms(1) obtain m where "1 \<le> m"
    and "snd (overall_loop (xs @ ys) 0 0) = of_int m"
    using overall_loop_positive [of 0 "xs @ ys" 0] by auto
  then have pos: "0 < snd (overall_loop (xs @ ys) 0 0)" by simp
  obtain w t where wt: "overall_loop (xs @ ys) 0 0 = (w, t)"
    by (cases "overall_loop (xs @ ys) 0 0")
  with pos have t: "0 < t" by simp
  from assms(1) have "xs @ ys \<noteq> []" by auto
  then have "computeOverallScore (xs @ ys) = Math_round (js_quot w t)"
    using wt t by (rule computeOverallScore_positive)
  moreover have "xs @ n # ys \<noteq> []" by simp
  then have "computeOverallScore (xs @ n # ys) = Math_round (js_quot w t)"
    using wt [folded same] t by (rule computeOverallScore_positive)
  ultimately show ?thesis by simp
qed

theorem C7_zero_weight_category_witness:
  "(\<exists>c\<in>set ([\<lparr>sc_score = 100, sc_maxPoints = Some (Num 10)\<rparr>]
              @ [\<lparr>sc_score = 0, sc_maxPoints = Some (Num 30)\<rparr>]). 0 < effective_weight c)
   \<and> computeOverallScore
        ([\<lparr>sc_score = 100, sc_maxPoints = Some (Num 10)\<rparr>]
         @ \<lparr>sc_score = 7, sc_maxPoints = Some (Num 0)\<rparr>
         # [\<lparr>sc_score = 0, sc_maxPoints = Some (Num 30)\<rparr>]) = 25"
proof -
  have pos: "\<exists>c\<in>set ([\<lparr>sc_score = 100, sc_maxPoints = Some (Num 10)\<rparr>]
              @ [\<lparr>sc_score = 0, sc_maxPoints = Some (Num 30)\<rparr>]). 0 < effective_weight c"
    by (simp add: effective_weight_def)
  have "computeOverallScore
        ([\<lparr>sc_score = 100, sc_maxPoints = Some (Num 10)\<rparr>]
         @ \<lparr>sc_score = 7, sc_maxPoints = Some (Num 0)\<rparr>
         # [\<lparr>sc_score = 0, sc_maxPoints = Some (Num 30)\<rparr>])
      = computeOverallScore
        ([\<lparr>sc_score = 100, sc_maxPoints = Some (Num 10)\<rparr>]
         @ [\<lparr>sc_score = 0, sc_maxPoints = Some (Num 30)\<rparr>])"
    by (rule C7_zero_weight_category [OF pos]) simp
  also have "\<dots> = 25"
    using computeOverallScore_example by simp
  finally show ?thesis using pos by blast
qed

section \<open>Deduction score\<close>

lemma applyScore_loop_sum: "applyScore_loop fs s = s - (\<Sum>f\<leftarrow>fs. deduction f)"
  by (induction fs arbitrary: s) (simp_all add: deduction_def or_zero_def)

lemma deduction_nonneg: "0 \<le> deduction f"
proof -
  have "0 \<le> DEDUCT v" for v by (cases v) simp_all
  then show ?thesis by (simp add: deduction_def)
qed

text \<open>
  \<^bold>\<open>C9.\<close> \<^verbatim>\<open>applyScore\<close> is 100 minus the sum, over the findings whose status is exactly
  \<^verbatim>\<open>'fail'\<close>, of the deduction for their severity (info 0, low 2, medium 6, high 12,
  critical 20; a missing severity counts as info), clamped to the range from 0 to 100; a
  finding with any other status deducts nothing.
\<close>

theorem C9_applyScore:
  "applyScore fs =
     max 0 (min 100 (100 - (\<Sum>f\<leftarrow>filter (\<lambda>f. ss_status f = ''fail'') fs.
                              DEDUCT (case ss_severity f of None \<Rightarrow> Info | Some v \<Rightarrow> v))))
   \<and> 0 \<le> applyScore fs \<and> applyScore fs \<le> 100
   \<and> applyScore (filter (\<lambda>f. ss_status f = ''fail'') fs) = applyScore fs
   \<and> DEDUCT Info = 0 \<and> DEDUCT Low = 2 \<and> DEDUCT Medium = 6 \<and> DEDUCT High = 12
   \<and> DEDUCT Critical = 20"
proof -
  have sum: "(\<Sum>f\<leftarrow>gs. deduction f) =
      (\<Sum>f\<leftarrow>filter (\<lambda>f. ss_status f = ''fail'') gs.
          DEDUCT (case ss_severity f of None \<Rightarrow> Info | Some v \<Rightarrow> v))" for gs
    by (induction gs) (simp_all add: deduction_def)
  have same: "(\<Sum>f\<leftarrow>filter (\<lambda>f. ss_status f = ''fail'') fs. deduction f) = (\<Sum>f\<leftarrow>fs. deduction f)"
    by (induction fs) (simp_all add: deduction_def)
  show ?thesis
    by (simp add: applyScore_def applyScore_loop_sum sum [symmetric] same)
qed

theorem C9_applyScore_witness:
  "applyScore
     [\<lparr>ss_status = ''fail'', ss_severity = Some High\<rparr>,
      \<lparr>ss_status = ''pass'', ss_severity = Some Critical\<rparr>,
      \<lparr>ss_status = ''skipped'', ss_severity = Some Critical\<rparr>,
      \<lparr>ss_status = ''fail'', ss_severity = None\<rparr>,
      \<lparr>ss_status = ''fail'', ss_severity = Some Medium\<rparr>] = 82"
  using C9_applyScore
    [of "[\<lparr>ss_status = ''fail'', ss_severity = Some High\<rparr>,
          \<lparr>ss_status = ''pass'', ss_severity = Some Critical\<rparr>,
          \<lparr>ss_status = ''skipped'', ss_severity = Some Critical\<rparr>,
          \<lparr>ss_status = ''fail'', ss_severity = None\<rparr>,
          \<lparr>ss_status = ''fail'', ss_severity = Some Medium\<rparr>]"]
  by simp

section \<open>Severities that name an inherited property\<close>

text \<open>
  \<^bold>\<open>C6.\<close> The documentation of \<^verbatim>\<open>computeCategoryScore\<close> has an unknown severity treated
  as \<^verbatim>\<open>'low'\<close>, and \<^verbatim>\<open>WEIGHT[sev] ?? WEIGHT.low\<close> is written for that. For a severity
  that names a property every object inherits the lookup is not \<^verbatim>\<open>undefined\<close>, and the
  default is not taken: one failed finding of severity \<^verbatim>\<open>'constructor'\<close> scores 100 with a
  \<^verbatim>\<open>maxPoints\<close> that is no number, where one failed finding of severity \<^verbatim>\<open>'low'\<close>, or
  of an unknown severity such as \<^verbatim>\<open>'urgent'\<close>, scores 0 with \<^verbatim>\<open>maxPoints\<close> 2.
\<close>

theorem C6_inherited_severity_not_low:
  "computeCategoryScore [\<lparr>fl_severity = Some ''constructor'', fl_status = Some ''fail''\<rparr>]
     = \<lparr>score = 100, maxPoints = Str, earnedPoints = Num 0\<rparr>
   \<and> computeCategoryScore [\<lparr>fl_severity = Some ''low'', fl_status = Some ''fail''\<rparr>]
     = \<lparr>score = 0, maxPoints = Num 2, earnedPoints = Num 0\<rparr>
   \<and> computeCategoryScore [\<lparr>fl_severity = Some ''urgent'', fl_status = Some ''fail''\<rparr>]
     = \<lparr>score = 0, maxPoints = Num 2, earnedPoints = Num 0\<rparr>"
  by (simp add: computeCategoryScore_def WEIGHT_def Object_prototype_keys_def nullish_or_def
      category_score_def percentage_0)

text \<open>
  The rest of what the claim says does hold: a status other than \<^verbatim>\<open>'pass'\<close> earns nothing
  and a missing or unknown severity that is no inherited property name weighs 2 (both in
  \<open>category_loop_sums\<close>, through \<open>weight\<close> and \<open>passed\<close>); the normalisation resolves every
  status to \<^verbatim>\<open>'pass'\<close> or \<^verbatim>\<open>'fail'\<close> and every severity to one of the five names, so that the
  findings \<^verbatim>\<open>runAudit\<close> scores never carry an inherited property name.
\<close>

lemma unknown_severity_weighs_low:
  assumes "s \<notin> set Object_prototype_keys"
    and "s \<notin> set [''info'', ''low'', ''medium'', ''high'', ''critical'']"
  shows "computeCategoryScore [\<lparr>fl_severity = Some s, fl_status = st\<rparr>] =
         computeCategoryScore [\<lparr>fl_severity = Some ''low'', fl_status = st\<rparr>]"
    and "computeCategoryScore [\<lparr>fl_severity = None, fl_status = st\<rparr>] =
         computeCategoryScore [\<lparr>fl_severity = Some ''low'', fl_status = st\<rparr>]"
  using assms
  by (simp_all add: computeCategoryScore_def WEIGHT_def nullish_or_def Let_def)

lemma toSev_recognised:
  "toSev x \<in> set [''info'', ''low'', ''medium'', ''high'', ''critical'']"
  by (simp add: toSev_def Let_def)

lemma normalizeFinding_status:
  assumes "normalizeFinding f = Inr g"
  shows "(f_status g = ''pass'' \<or> f_status g = ''fail'')
         \<and> (f_status g = ''pass'' \<longleftrightarrow> get f ''status'' = JStr ''pass'')
         \<and> f_severity g \<in> set [''info'', ''low'', ''medium'', ''high'', ''critical'']"
proof -
  from assms have g: "f_status g =
      (if get f ''status'' = JStr ''pass'' then ''pass''
       else if get f ''status'' = JStr ''fail'' then ''fail'' else ''fail'')"
    and sev: "f_severity g = toSev (get f ''severity'')"
    by (auto simp: normalizeFinding_def split: if_splits)
  from g have "(f_status g = ''pass'' \<or> f_status g = ''fail'')
         \<and> (f_status g = ''pass'' \<longleftrightarrow> get f ''status'' = JStr ''pass'')"
    by simp
  moreover from sev toSev_recognised [of "get f ''severity''"]
  have "f_severity g \<in> set [''info'', ''low'', ''medium'', ''high'', ''critical'']"
    by simp
  ultimately show ?thesis by blast
qed

section \<open>The runner and the orchestrator\<close>

lemma run_analyzers_acc:
  "run_analyzers w reg t cats issues evs =
     ((cats @ analyzer_categories w reg t, issues @ load_issues w reg t),
      evs @ concat (map (\<lambda>e. snd (runAnalyzer w e t)) reg))"
proof (induction reg arbitrary: cats issues evs)
  case Nil
  then show ?case
    by (simp add: analyzer_categories_def load_issues_def List.map_filter_simps)
next
  case (Cons e reg)
  obtain cat issue l where r: "runAnalyzer w e t = ((cat, issue), l)"
    by (metis prod.exhaust)
  show ?case
    by (cases cat; cases issue)
      (simp_all add: r Cons.IH analyzer_categories_def load_issues_def List.map_filter_simps)
qed

lemma runAudit_with_valid:
  assumes "stat w t = Some Directory"
  shows "fst (runAudit_with reg w t opts) =
     (case fst (emit w opts) of
        Some e \<Rightarrow> Inl e
      | None \<Rightarrow> Inr (assemble w t (analyzer_categories w reg t) (load_issues w reg t)))"
  using assms
  by (simp add: runAudit_with_def run_analyzers_acc split: prod.splits option.splits)


lemma runAnalyzer_outcome:
  "fst (runAnalyzer w e t) =
     (case analyzer_outcome w e t of
        Some res \<Rightarrow> (settle e res, None)
      | None \<Rightarrow>
          (None, Some (case importAnalyzerModule w (stem e) of
                         ((None, tried, errors), evs) \<Rightarrow> load_issue e tried errors
                       | ((Some m, tried, errors), evs) \<Rightarrow> no_fn_issue e)))"
  by (simp add: runAnalyzer_def analyzer_outcome_def split: prod.splits option.splits)

lemma settle_None:
  "settle e res = None \<longleftrightarrow> (\<exists>v. res = Returns v \<and> \<not> truthy v)"
  by (cases res) (auto simp: settle_def normalizeCategory_def Let_def split: sum.splits)

lemma runAnalyzer_nothing:
  "fst (runAnalyzer w e t) = (None, None) \<longleftrightarrow> returns_falsy w e t"
  by (auto simp: runAnalyzer_outcome returns_falsy_def settle_None
      split: option.splits outcome.splits)

lemma categories_empty_iff:
  "categories (assemble w t (analyzer_categories w reg t) (load_issues w reg t)) = []
     \<longleftrightarrow> (\<forall>e\<in>set reg. returns_falsy w e t)"
proof -
  have "categories (assemble w t (analyzer_categories w reg t) (load_issues w reg t)) = []
      \<longleftrightarrow> analyzer_categories w reg t = [] \<and> load_issues w reg t = []"
    by (auto simp: assemble_def Let_def)
  also have "\<dots> \<longleftrightarrow> (\<forall>e\<in>set reg. fst (runAnalyzer w e t) = (None, None))"
    by (auto simp: analyzer_categories_def load_issues_def List.map_filter_def filter_empty_conv
        prod_eq_iff)
  finally show ?thesis by (simp add: runAnalyzer_nothing)
qed



lemma assemble_categories:
  "categories (assemble w t cats issues) =
     (if issues \<noteq> [] then score_category (load_category issues) # map score_category cats
      else map score_category cats)"
  by (simp add: assemble_def Let_def)

lemma score_category_fields:
  "c_findings (score_category c) = c_findings c"
  "c_id (score_category c) = c_id c"
  "c_title (score_category c) = c_title c"
  by (simp_all add: score_category_def Let_def)





lemma relative_in_candidates:
  "ext \<in> set [''.js'', ''.mjs''] \<Longrightarrow>
     path_join (path_join dir ''analyzers'') (stm @ ext) \<in> set (analyzerCandidates dir stm)"
  by (auto simp: analyzerCandidates_def Let_def)

lemma import_candidates_miss:
  "\<forall>p\<in>set cs. stat w p \<noteq> Some File \<Longrightarrow>
     import_candidates w cs tried errors evs = ((None, tried @ cs, errors), evs)"
  by (induction cs arbitrary: tried) (auto split: option.splits node.splits)

lemma import_relative_miss:
  "\<forall>ext\<in>set exts. stat w (path_join (path_join (here w) ''analyzers'') (stm @ ext)) \<noteq> Some File
     \<Longrightarrow> fst (fst (import_relative w stm exts tried errors evs)) = None"
  by (induction exts arbitrary: tried errors evs)
    (auto simp: dynamic_import_def Let_def split: option.splits node.splits)

lemma importAnalyzerModule_miss:
  assumes "\<forall>p\<in>set (analyzerCandidates (here w) stm). stat w p \<noteq> Some File"
  shows "fst (fst (importAnalyzerModule w stm)) = None"
proof -
  from assms have "\<forall>ext\<in>set [''.js'', ''.mjs''].
      stat w (path_join (path_join (here w) ''analyzers'') (stm @ ext)) \<noteq> Some File"
    using relative_in_candidates [of _ "here w" stm] by blast
  then have "fst (fst (import_relative w stm [''.js'', ''.mjs''] tried errors evs)) = None"
    for tried errors evs
    by (rule import_relative_miss)
  then show ?thesis
    by (simp add: importAnalyzerModule_def import_candidates_miss [OF assms]
        del: import_relative.simps)
qed

lemma load_issue_fields:
  "f_id (load_issue e tried errors) = ''load-'' @ e_id e"
  "f_severity (load_issue e tried errors) = ''high''"
  "f_status (load_issue e tried errors) = ''fail''"
  by (simp_all add: load_issue_def Let_def)

lemma runAnalyzer_miss:
  assumes "\<forall>p\<in>set (analyzerCandidates (here w) (stem e)). stat w p \<noteq> Some File"
  shows "\<exists>tried errors. fst (runAnalyzer w e t) = (None, Some (load_issue e tried errors))"
  using importAnalyzerModule_miss [OF assms]
  by (auto simp: runAnalyzer_def split: prod.splits option.splits)

lemma runAnalyzer_issue:
  assumes "snd (fst (runAnalyzer w e t)) = Some i"
  shows "(f_id i = ''load-'' @ e_id e \<or> f_id i = ''no-fn-'' @ e_id e)
         \<and> f_severity i = ''high'' \<and> f_status i = ''fail''"
  using assms
  by (auto simp: runAnalyzer_def load_issue_fields no_fn_issue_def
      split: prod.splits option.splits)

lemma load_issues_severity:
  "f \<in> set (load_issues w reg t) \<Longrightarrow> f_severity f = ''high'' \<and> f_status f = ''fail''"
  by (auto simp: load_issues_def List.map_filter_def dest: runAnalyzer_issue)

lemma load_issue_once:
  assumes "e \<in> set reg" and "distinct (map e_id reg)"
    and "\<forall>p\<in>set (analyzerCandidates (here w) (stem e)). stat w p \<noteq> Some File"
  shows "length (filter (\<lambda>f. f_id f = ''load-'' @ e_id e) (load_issues w reg t)) = 1"
proof -
  let ?g = "\<lambda>e'. snd (fst (runAnalyzer w e' t))"
  let ?P = "\<lambda>f. f_id f = ''load-'' @ e_id e"
  from assms(2) have dist: "distinct reg" and inj: "inj_on e_id (set reg)"
    by (simp_all add: distinct_map)
  have own: "?g e \<noteq> None \<and> ?P (the (?g e))"
    using runAnalyzer_miss [OF assms(3), of t] by (auto simp: load_issue_fields)
  have iff: "(?g e' \<noteq> None \<and> ?P (the (?g e'))) \<longleftrightarrow> e' = e" if "e' \<in> set reg" for e'
  proof
    assume "?g e' \<noteq> None \<and> ?P (the (?g e'))"
    then obtain i where i: "?g e' = Some i" and id: "f_id i = ''load-'' @ e_id e" by auto
    from runAnalyzer_issue [OF i] id have "e_id e' = e_id e" by auto
    with inj that assms(1) show "e' = e" by (auto dest: inj_onD)
  next
    assume "e' = e"
    with own show "?g e' \<noteq> None \<and> ?P (the (?g e'))" by simp
  qed
  have "filter ?P (load_issues w reg t) =
      map (\<lambda>e'. the (?g e')) (filter (\<lambda>e'. ?g e' \<noteq> None \<and> ?P (the (?g e'))) reg)"
    by (simp add: load_issues_def List.map_filter_def filter_map o_def conj_commute)
  also have "filter (\<lambda>e'. ?g e' \<noteq> None \<and> ?P (the (?g e'))) reg = filter (\<lambda>e'. e' = e) reg"
    by (rule filter_cong [OF refl]) (rule iff)
  finally have "length (filter ?P (load_issues w reg t)) = length (filter (\<lambda>e'. e' = e) reg)"
    by simp
  also have "\<dots> = card ({e'. e' = e} \<inter> set reg)"
    using dist by (rule distinct_length_filter)
  also have "{e'. e' = e} \<inter> set reg = {e}"
    using assms(1) by auto
  finally show ?thesis by simp
qed

text \<open>
  The findings that \<^verbatim>\<open>runAudit\<close> scores carry one of the five severity names, so the
  \<^verbatim>\<open>_maxPoints\<close> of every category of a result is a number.
\<close>

lemma map_throwing_Inr:
  "map_throwing g xs = Inr ys \<Longrightarrow> \<forall>y\<in>set ys. \<exists>x\<in>set xs. g x = Inr y"
  by (induction xs arbitrary: ys) (auto split: sum.splits)

lemma normalizeCategory_severities:
  assumes "normalizeCategory e out = Inr (Some c)" and "f \<in> set (c_findings c)"
  shows "f_severity f \<in> set [''info'', ''low'', ''medium'', ''high'', ''critical'']"
proof -
  from assms(1) obtain raw where "map_throwing normalizeFinding raw = Inr (c_findings c)"
    by (auto simp: normalizeCategory_def Let_def split: if_splits sum.splits)
  with assms(2) obtain x where "normalizeFinding x = Inr f"
    using map_throwing_Inr by blast
  then show ?thesis using normalizeFinding_status by blast
qed

lemma settle_severities:
  assumes "settle e res = Some c" and "f \<in> set (c_findings c)"
  shows "f_severity f \<in> set [''info'', ''low'', ''medium'', ''high'', ''critical'']"
proof (cases res)
  case (Throws x)
  with assms show ?thesis by (auto simp: settle_def error_category_def)
next
  case (Rejects x)
  with assms show ?thesis by (auto simp: settle_def error_category_def)
next
  case (Returns v)
  show ?thesis
  proof (cases "normalizeCategory e v")
    case (Inl x)
    with Returns assms show ?thesis by (auto simp: settle_def error_category_def)
  next
    case (Inr n)
    with Returns assms have "normalizeCategory e v = Inr (Some c)"
      by (simp add: settle_def)
    then show ?thesis using assms(2) by (rule normalizeCategory_severities)
  qed
qed

lemma runAudit_severities:
  assumes "fst (runAudit_with reg w t opts) = Inr r"
    and "c \<in> set (categories r)" and "f \<in> set (c_findings c)"
  shows "f_severity f \<in> set [''info'', ''low'', ''medium'', ''high'', ''critical'']"
proof -
  from assms(1) have dir: "stat w t = Some Directory"
    by (auto simp: runAudit_with_def split: option.splits node.splits)
  with assms(1) have r: "r = assemble w t (analyzer_categories w reg t) (load_issues w reg t)"
    by (auto simp: runAudit_with_valid split: option.splits)
  from assms(2) consider
    (load) "c = score_category (load_category (load_issues w reg t))"
    | (cat) c' where "c' \<in> set (analyzer_categories w reg t)" "c = score_category c'"
    by (auto simp: r assemble_categories split: if_splits)
  then show ?thesis
  proof cases
    case load
    with assms(3) have "f \<in> set (load_issues w reg t)"
      by (simp add: score_category_fields load_category_def)
    then show ?thesis using load_issues_severity by auto
  next
    case cat
    then obtain e where "fst (fst (runAnalyzer w e t)) = Some c'"
      by (auto simp: analyzer_categories_def List.map_filter_def)
    then obtain res where "settle e res = Some c'"
      by (auto simp: runAnalyzer_outcome split: option.splits)
    moreover from cat assms(3) have "f \<in> set (c_findings c')"
      by (simp add: score_category_fields)
    ultimately show ?thesis by (rule settle_severities)
  qed
qed

lemma recognised_not_inherited:
  "s \<in> set [''info'', ''low'', ''medium'', ''high'', ''critical''] \<Longrightarrow>
     s \<notin> set Object_prototype_keys"
  by (auto simp: Object_prototype_keys_def)

lemma runAudit_maxPoints_numeric:
  assumes "fst (runAudit_with reg w t opts) = Inr r" and "c \<in> set (categories r)"
  shows "\<exists>n. c_maxPoints c = Some (Num n)"
proof -
  have own: "\<forall>g\<in>set (map like (c_findings c)). own_or_unknown g"
    using runAudit_severities [OF assms] recognised_not_inherited
    by (auto simp: like_def own_or_unknown_def simp del: set_simps)
  from assms(1) have dir: "stat w t = Some Directory"
    by (auto simp: runAudit_with_def split: option.splits node.splits)
  with assms(1) have r: "r = assemble w t (analyzer_categories w reg t) (load_issues w reg t)"
    by (auto simp: runAudit_with_valid split: option.splits)
  with assms(2) obtain c' where c: "c = score_category c'"
    by (auto simp: assemble_categories split: if_splits)
  then have same: "c_findings c' = c_findings c"
    by (simp add: score_category_fields)
  have "maxPoints (computeCategoryScore (map like (c_findings c)))
          = Num (spec_maxPoints (map like (c_findings c)))"
    proof (cases "c_findings c = []")
    case True
    then show ?thesis by (simp add: computeCategoryScore_def spec_maxPoints_def)
  next
    case False
    with own show ?thesis by (simp add: computeCategoryScore_sums)
  qed
  then show ?thesis
    by (simp add: c score_category_def Let_def same [symmetric])
qed



text \<open>
  \<^bold>\<open>C4.\<close> Whenever the run collected a load issue, the first category of the result is the
  one synthetic category \<^verbatim>\<open>Analyzer Load Issues\<close>, whose findings are all the load issues,
  followed by the analyzers' categories; without load issues there is no such category. A
  registry entry (of a registry with distinct ids) none of whose candidate paths is a file
  on disk has exactly one load issue with id \<^verbatim>\<open>load-<entryId>\<close>, and every load issue has
  severity high and status fail.
\<close>

theorem C4_load_issues:
  "(stat w t = Some Directory \<and> fst (emit w options) = None \<longrightarrow>
      (\<exists>r. fst (runAudit_with registry w t options) = Inr r
         \<and> (load_issues w registry t \<noteq> [] \<longrightarrow>
              (\<exists>c. categories r = c # map score_category (analyzer_categories w registry t)
                  \<and> c_id c = JStr ''analyzer-load'' \<and> c_title c = JStr ''Analyzer Load Issues''
                  \<and> c_findings c = load_issues w registry t))
         \<and> (load_issues w registry t = [] \<longrightarrow>
              categories r = map score_category (analyzer_categories w registry t))))
   \<and> (e \<in> set registry \<and> distinct (map e_id registry)
        \<and> (\<forall>p\<in>set (analyzerCandidates (here w) (stem e)). stat w p \<noteq> Some File) \<longrightarrow>
        length (filter (\<lambda>f. f_id f = ''load-'' @ e_id e) (load_issues w registry t)) = 1
        \<and> (\<forall>f\<in>set (load_issues w registry t). f_severity f = ''high'' \<and> f_status f = ''fail''))"
proof -
  have first: "\<exists>r. fst (runAudit_with registry w t options) = Inr r
         \<and> (load_issues w registry t \<noteq> [] \<longrightarrow>
              (\<exists>c. categories r = c # map score_category (analyzer_categories w registry t)
                  \<and> c_id c = JStr ''analyzer-load'' \<and> c_title c = JStr ''Analyzer Load Issues''
                  \<and> c_findings c = load_issues w registry t))
         \<and> (load_issues w registry t = [] \<longrightarrow>
              categories r = map score_category (analyzer_categories w registry t))"
    if "stat w t = Some Directory" and "fst (emit w options) = None"
  proof -
    let ?r = "assemble w t (analyzer_categories w registry t) (load_issues w registry t)"
    from that have "fst (runAudit_with registry w t options) = Inr ?r"
      by (simp add: runAudit_with_valid)
    moreover have "load_issues w registry t \<noteq> [] \<longrightarrow>
        categories ?r = score_category (load_category (load_issues w registry t))
                        # map score_category (analyzer_categories w registry t)
        \<and> c_id (score_category (load_category (load_issues w registry t))) = JStr ''analyzer-load''
        \<and> c_title (score_category (load_category (load_issues w registry t)))
            = JStr ''Analyzer Load Issues''
        \<and> c_findings (score_category (load_category (load_issues w registry t)))
            = load_issues w registry t"
      by (simp add: assemble_categories score_category_fields load_category_def)
    moreover have "load_issues w registry t = [] \<longrightarrow>
        categories ?r = map score_category (analyzer_categories w registry t)"
      by (simp add: assemble_categories)
    ultimately show ?thesis by blast
  qed
  have second: "length (filter (\<lambda>f. f_id f = ''load-'' @ e_id e) (load_issues w registry t)) = 1
        \<and> (\<forall>f\<in>set (load_issues w registry t). f_severity f = ''high'' \<and> f_status f = ''fail'')"
    if "e \<in> set registry" and "distinct (map e_id registry)"
      and "\<forall>p\<in>set (analyzerCandidates (here w) (stem e)). stat w p \<noteq> Some File"
    using load_issue_once [OF that] load_issues_severity by blast
  from first second show ?thesis by blast
qed

theorem C4_load_issues_witness:
  "\<exists>r c rest. fst (runAudit quiet_world ''/proj'' default_options) = Inr r
      \<and> categories r = c # rest
      \<and> c_title c = JStr ''Analyzer Load Issues''
      \<and> length (filter (\<lambda>f. f_id f = ''load-config'') (c_findings c)) = 1
      \<and> list_all (\<lambda>f. f_severity f = ''high'') (c_findings c)"
proof -
  let ?e = "ANALYZERS ! 2"
  have a: "stat quiet_world ''/proj'' = Some Directory"
    and b: "fst (emit quiet_world default_options) = None"
    by (simp_all add: quiet_world_def default_options_def emit_def Let_def)
  have c: "?e \<in> set ANALYZERS" and d: "distinct (map e_id ANALYZERS)"
    and id: "e_id ?e = ''config''"
    by (simp_all add: ANALYZERS_def)
  have miss: "\<forall>p\<in>set (analyzerCandidates (here quiet_world) (stem ?e)).
      stat quiet_world p \<noteq> Some File"
    by (simp add: quiet_world_def)
  from C4_load_issues [of quiet_world "''/proj''" default_options ANALYZERS ?e] a b c d miss
  obtain r where r: "fst (runAudit_with ANALYZERS quiet_world ''/proj'' default_options) = Inr r"
    and pre: "load_issues quiet_world ANALYZERS ''/proj'' \<noteq> [] \<longrightarrow>
              (\<exists>c. categories r = c # map score_category (analyzer_categories quiet_world ANALYZERS ''/proj'')
                  \<and> c_id c = JStr ''analyzer-load'' \<and> c_title c = JStr ''Analyzer Load Issues''
                  \<and> c_findings c = load_issues quiet_world ANALYZERS ''/proj'')"
    and one: "length (filter (\<lambda>f. f_id f = ''load-'' @ e_id ?e)
                (load_issues quiet_world ANALYZERS ''/proj'')) = 1"
    and sev: "\<forall>f\<in>set (load_issues quiet_world ANALYZERS ''/proj'').
                f_severity f = ''high'' \<and> f_status f = ''fail''"
    by blast
  from one have "load_issues quiet_world ANALYZERS ''/proj'' \<noteq> []" by auto
  with pre obtain c where "categories r = c # map score_category (analyzer_categories quiet_world ANALYZERS ''/proj'')"
    and "c_title c = JStr ''Analyzer Load Issues''"
    and "c_findings c = load_issues quiet_world ANALYZERS ''/proj''"
    by blast
  with r one sev id show ?thesis
    unfolding runAudit_def by (auto simp: list_all_iff)
qed




text \<open>
  \<^bold>\<open>C8.\<close> As stated (a non-empty registry gives a non-empty category list, whatever the
  analyzers return) the claim fails: \<^verbatim>\<open>normalizeCategory\<close> returns \<^verbatim>\<open>null\<close> for a falsy
  analyzer result, and \<^verbatim>\<open>runAudit\<close> then pushes neither a category nor a load issue. With
  the registry of the program and every analyzer returning \<^verbatim>\<open>null\<close>, the category list is
  empty.
\<close>

theorem C8_falsy_counterexample:
  "ANALYZERS \<noteq> []
   \<and> fst (runAudit null_world ''/proj'' default_options)
     = Inr \<lparr>targetDir = ''/proj'', timestamp = ''2025-01-01T00:00:00.000Z'', categories = [],
            overallScore = 100\<rparr>"
  by code_simp

text \<open>
  \<^bold>\<open>C8, amended.\<close> Each registry entry contributes a category (its analyzer returned a truthy
  value, or threw), a load issue taken into the synthetic load-issues category, or nothing
  (its analyzer returned a falsy value). The category list is empty exactly when every entry
  is of the last kind; so for a registry with an entry whose analyzer does not return a falsy
  value it is never empty.
\<close>

theorem C8_categories_nonempty:
  assumes "stat w t = Some Directory" and "fst (emit w options) = None"
  shows "\<exists>r. fst (runAudit_with registry w t options) = Inr r
           \<and> (categories r = [] \<longleftrightarrow> (\<forall>e\<in>set registry. returns_falsy w e t))
           \<and> categories r =
               (if load_issues w registry t \<noteq> []
                then [score_category (load_category (load_issues w registry t))] else [])
               @ map score_category (analyzer_categories w registry t)
           \<and> (\<forall>e. (\<exists>c. fst (runAnalyzer w e t) = (Some c, None))
                  \<or> (\<exists>i. fst (runAnalyzer w e t) = (None, Some i))
                  \<or> (fst (runAnalyzer w e t) = (None, None) \<and> returns_falsy w e t))"
proof -
  let ?r = "assemble w t (analyzer_categories w registry t) (load_issues w registry t)"
  from assms have res: "fst (runAudit_with registry w t options) = Inr ?r"
    by (simp add: runAudit_with_valid)
  have "categories ?r = [] \<longleftrightarrow> (\<forall>e\<in>set registry. returns_falsy w e t)"
    by (rule categories_empty_iff)
  moreover have "categories ?r =
               (if load_issues w registry t \<noteq> []
                then [score_category (load_category (load_issues w registry t))] else [])
               @ map score_category (analyzer_categories w registry t)"
    by (simp add: assemble_categories)
  moreover have "(\<exists>c. fst (runAnalyzer w e t) = (Some c, None))
                  \<or> (\<exists>i. fst (runAnalyzer w e t) = (None, Some i))
                  \<or> (fst (runAnalyzer w e t) = (None, None) \<and> returns_falsy w e t)" for e
  proof (cases "analyzer_outcome w e t")
    case None
    then show ?thesis by (simp add: runAnalyzer_outcome)
  next
    case (Some res)
    show ?thesis
    proof (cases "settle e res")
      case None
      with Some have "fst (runAnalyzer w e t) = (None, None)"
        by (simp add: runAnalyzer_outcome)
      then show ?thesis by (simp add: runAnalyzer_nothing)
    next
      case (Some c)
      with \<open>analyzer_outcome w e t = Some res\<close> show ?thesis
        by (simp add: runAnalyzer_outcome)
    qed
  qed
  ultimately show ?thesis using res by blast
qed

theorem C8_categories_nonempty_witness:
  "\<exists>r. fst (runAudit quiet_world ''/proj'' default_options) = Inr r \<and> categories r \<noteq> []"
proof -
  have a: "stat quiet_world ''/proj'' = Some Directory"
    and b: "fst (emit quiet_world default_options) = None"
    by (simp_all add: quiet_world_def default_options_def emit_def Let_def)
  have c: "\<not> returns_falsy quiet_world (hd ANALYZERS) ''/proj''"
    by code_simp
  have d: "hd ANALYZERS \<in> set ANALYZERS"
    by (simp add: ANALYZERS_def)
  from C8_categories_nonempty [OF a b, of ANALYZERS] c d show ?thesis
    unfolding runAudit_def by blast
qed

section \<open>The helper \<^verbatim>\<open>ok\<close>\<close>

text \<open>
  \<^verbatim>\<open>RegExp.prototype.test\<close> itself is stateful under the global flag: the same call gives
  true, then false.
\<close>

lemma RegExp_test_is_stateful:
  "RegExp_test literal_engine \<lparr>source = ''retries'', flags = ''g'', lastIndex = 0\<rparr>
     ''retries: 2'' = (True, \<lparr>source = ''retries'', flags = ''g'', lastIndex = 7\<rparr>)
   \<and> RegExp_test literal_engine \<lparr>source = ''retries'', flags = ''g'', lastIndex = 7\<rparr>
     ''retries: 2'' = (False, \<lparr>source = ''retries'', flags = ''g'', lastIndex = 0\<rparr>)"
  by code_simp

text \<open>
  \<^bold>\<open>C10.\<close> \<^verbatim>\<open>ok\<close> leaves its argument as it was, its answer does not depend on the
  argument's \<^verbatim>\<open>lastIndex\<close>, a second call with the same arguments gives the same answer,
  and the answer is false for a text that is \<^verbatim>\<open>null\<close>, \<^verbatim>\<open>undefined\<close> or empty; this for
  every pattern, every flag set and every matcher of the runtime.
\<close>

theorem C10_ok_stateless:
  "snd (ok E re text) = re
   \<and> fst (ok E (re\<lparr>lastIndex := k\<rparr>) text) = fst (ok E re text)
   \<and> (case ok E re text of (b1, re1) \<Rightarrow>
         case ok E re1 text of (b2, re2) \<Rightarrow> b2 = b1 \<and> re2 = re)
   \<and> (text = None \<or> text = Some [] \<longrightarrow> \<not> fst (ok E re text))"
  by (auto simp: ok_def Let_def split: option.splits prod.splits)

theorem C10_ok_stateless_witness:
  "snd (ok literal_engine \<lparr>source = ''retries'', flags = ''g'', lastIndex = 7\<rparr>
          (Some ''retries: 2'')) = \<lparr>source = ''retries'', flags = ''g'', lastIndex = 7\<rparr>
   \<and> fst (ok literal_engine \<lparr>source = ''retries'', flags = ''g'', lastIndex = 7\<rparr>
            (Some ''retries: 2'')) = True
   \<and> \<not> fst (ok literal_engine \<lparr>source = ''retries'', flags = ''g'', lastIndex = 0\<rparr> (Some []))
   \<and> \<not> fst (ok literal_engine \<lparr>source = ''retries'', flags = ''g'', lastIndex = 0\<rparr> None)"
proof -
  let ?re = "\<lparr>source = ''retries'', flags = ''g'', lastIndex = 0\<rparr>"
  let ?re7 = "\<lparr>source = ''retries'', flags = ''g'', lastIndex = 7\<rparr>"
  have t: "fst (ok literal_engine ?re (Some ''retries: 2'')) = True"
    by code_simp
  have upd: "?re\<lparr>lastIndex := 7\<rparr> = ?re7" by simp
  from C10_ok_stateless [of literal_engine ?re "Some ''retries: 2''" 7]
  have "fst (ok literal_engine ?re7 (Some ''retries: 2'')) = True"
    unfolding upd using t by simp
  moreover from C10_ok_stateless [of literal_engine ?re7 "Some ''retries: 2''" 7]
  have "snd (ok literal_engine ?re7 (Some ''retries: 2'')) = ?re7"
    by blast
  moreover from C10_ok_stateless [of literal_engine ?re "Some []" 0]
  have "\<not> fst (ok literal_engine ?re (Some []))" by blast
  moreover from C10_ok_stateless [of literal_engine ?re None 0]
  have "\<not> fst (ok literal_engine ?re None)" by blast
  ultimately show ?thesis by blast
qed

end
